theory Spec2Isabelle
  imports Main
begin

section \<open>JavaScript values\<close>

text \<open>
  \<^verbatim>\<open>mongodb-index-migration-enhanced.js\<close> handles an index descriptor as a
  plain JavaScript object, as the driver returns it from \<^verbatim>\<open>collection.indexes()\<close>
  or as \<^verbatim>\<open>JSON.parse\<close> reads it from \<^verbatim>\<open>config.json\<close>. A value is
  a tree. An object lists its own enumerable properties in enumeration order (the order of
  \<^verbatim>\<open>Object.keys\<close>, in which a property name occurs once), and every object and
  array carries the reference that \<^verbatim>\<open>===\<close> compares. Numbers are the
  integer-valued ones (directions, weights, seconds, versions) and \<^verbatim>\<open>NaN\<close>,
  which the driver returns for a TTL index that was created with it and which is the one
  value \<^verbatim>\<open>===\<close> does not relate to itself; fractions, the infinities and the
  signed zero are not values here. Strings are byte strings; a value has no
  \<^verbatim>\<open>toJSON\<close> method.
\<close>

type_synonym ref = nat

datatype jsval =
    JUndefined
  | JNull
  | JBool bool
  | JNum int
  | JNaN
  | JStr string
  | JArr ref "jsval list"
  | JObj ref "(string \<times> jsval) list"

type_synonym jsobject = "(string \<times> jsval) list"

text \<open>Property read \<^verbatim>\<open>o.k\<close>: \<^verbatim>\<open>undefined\<close> when the object has no such property.\<close>

definition js_get :: "jsobject \<Rightarrow> string \<Rightarrow> jsval" where
  "js_get obj k = (case map_of obj k of None \<Rightarrow> JUndefined | Some v \<Rightarrow> v)"

text \<open>
  Strict equality \<^verbatim>\<open>===\<close>: primitives by type and value, objects and arrays
  by reference, and \<^verbatim>\<open>NaN\<close> equal to nothing, itself included.
\<close>

fun strict_eq :: "jsval \<Rightarrow> jsval \<Rightarrow> bool" where
  "strict_eq JUndefined JUndefined = True"
| "strict_eq JNull JNull = True"
| "strict_eq (JBool a) (JBool b) = (a = b)"
| "strict_eq (JNum a) (JNum b) = (a = b)"
| "strict_eq (JStr a) (JStr b) = (a = b)"
| "strict_eq (JArr r xs) (JArr r' ys) = (r = r')"
| "strict_eq (JObj r fs) (JObj r' gs) = (r = r')"
| "strict_eq _ _ = False"

text \<open>Truthiness, and \<^verbatim>\<open>a || b\<close>.\<close>

fun truthy :: "jsval \<Rightarrow> bool" where
  "truthy JUndefined = False"
| "truthy JNull = False"
| "truthy (JBool b) = b"
| "truthy (JNum n) = (n \<noteq> 0)"
| "truthy JNaN = False"
| "truthy (JStr s) = (s \<noteq> [])"
| "truthy (JArr r xs) = True"
| "truthy (JObj r fs) = True"

definition js_or :: "jsval \<Rightarrow> jsval \<Rightarrow> jsval" where
  "js_or a b = (if truthy a then a else b)"

text \<open>
  \<^verbatim>\<open>Object.values(x)\<close> for a value that is neither \<^verbatim>\<open>null\<close> nor
  \<^verbatim>\<open>undefined\<close> (the source guards the call with \<^verbatim>\<open>indexA.key &&\<close>):
  the property values of an object, the elements of an array, the characters of a string,
  nothing for a number or a boolean.
\<close>

fun Object_values :: "jsval \<Rightarrow> jsval list" where
  "Object_values (JObj r fs) = map snd fs"
| "Object_values (JArr r xs) = xs"
| "Object_values (JStr s) = map (\<lambda>c. JStr [c]) s"
| "Object_values _ = []"

text \<open>\<^verbatim>\<open>Array.prototype.includes\<close> with a primitive string as the searched value.\<close>

definition js_includes :: "jsval list \<Rightarrow> jsval \<Rightarrow> bool" where
  "js_includes xs v = list_ex (\<lambda>x. strict_eq x v) xs"

section \<open>JSON.stringify\<close>

definition dquote :: char where "dquote = CHR 0x22"
definition backslash :: char where "backslash = CHR 0x5C"

definition hex_digit :: "nat \<Rightarrow> char" where
  "hex_digit n = (if n < 10 then char_of (48 + n) else char_of (87 + n))"

text \<open>QuoteJSONString: the two-character escapes, \<^verbatim>\<open>\u00XX\<close> for the other control characters.\<close>

definition escape_char :: "char \<Rightarrow> string" where
  "escape_char c =
     (if c = dquote then [backslash, dquote]
      else if c = backslash then [backslash, backslash]
      else if c = CHR 0x08 then [backslash, CHR ''b'']
      else if c = CHR 0x0C then [backslash, CHR ''f'']
      else if c = CHR 0x0A then [backslash, CHR ''n'']
      else if c = CHR 0x0D then [backslash, CHR ''r'']
      else if c = CHR 0x09 then [backslash, CHR ''t'']
      else if (of_char c :: nat) < 32 then
        [backslash, CHR ''u'', CHR ''0'', CHR ''0'',
         hex_digit (of_char c div 16), hex_digit (of_char c mod 16)]
      else [c])"

definition quote_json :: "string \<Rightarrow> string" where
  "quote_json s = dquote # concat (map escape_char s) @ [dquote]"

fun show_nat :: "nat \<Rightarrow> string" where
  "show_nat n = (if n < 10 then [char_of (48 + n)]
                 else show_nat (n div 10) @ [char_of (48 + n mod 10)])"

declare show_nat.simps [simp del]

definition show_int :: "int \<Rightarrow> string" where
  "show_int i = (if i < 0 then CHR ''-'' # show_nat (nat (- i)) else show_nat (nat i))"

fun join_comma :: "string list \<Rightarrow> string" where
  "join_comma [] = []"
| "join_comma [x] = x"
| "join_comma (x # y # ys) = x @ CHR '','' # join_comma (y # ys)"

text \<open>
  \<^verbatim>\<open>JSON.stringify(v)\<close>: \<open>None\<close> is the result \<^verbatim>\<open>undefined\<close>. An
  \<^verbatim>\<open>undefined\<close> array element is written \<^verbatim>\<open>null\<close>, an
  \<^verbatim>\<open>undefined\<close> property is left out; properties come in enumeration order.
\<close>

fun JSON_stringify :: "jsval \<Rightarrow> string option"
  and stringify_elems :: "jsval list \<Rightarrow> string list"
  and stringify_props :: "(string \<times> jsval) list \<Rightarrow> string list"
where
  "JSON_stringify JUndefined = None"
| "JSON_stringify JNull = Some ''null''"
| "JSON_stringify (JBool b) = Some (if b then ''true'' else ''false'')"
| "JSON_stringify (JNum n) = Some (show_int n)"
| "JSON_stringify JNaN = Some ''null''"
| "JSON_stringify (JStr s) = Some (quote_json s)"
| "JSON_stringify (JArr r xs) = Some (CHR ''['' # join_comma (stringify_elems xs) @ '']'')"
| "JSON_stringify (JObj r fs) = Some (CHR ''{'' # join_comma (stringify_props fs) @ ''}'')"
| "stringify_elems [] = []"
| "stringify_elems (x # xs) =
     (case JSON_stringify x of None \<Rightarrow> ''null'' | Some s \<Rightarrow> s) # stringify_elems xs"
| "stringify_props [] = []"
| "stringify_props (p # fs) =
     (case JSON_stringify (snd p) of
        None \<Rightarrow> stringify_props fs
      | Some s \<Rightarrow> (quote_json (fst p) @ CHR '':'' # s) # stringify_props fs)"

section \<open>The equivalence comparator\<close>

type_synonym descriptor = jsobject

text \<open>The literal \<^verbatim>\<open>{}\<close>: a new empty object; it is only ever serialised.\<close>

definition empty_object :: jsval where
  "empty_object = JObj 0 []"

definition areIndexesEquivalent :: "descriptor \<Rightarrow> descriptor \<Rightarrow> bool" where
  "areIndexesEquivalent indexA indexB =
     (let keysA = JSON_stringify (js_get indexA ''key'');
          keysB = JSON_stringify (js_get indexB ''key'')
      in if keysA \<noteq> keysB then False
         else if \<not> strict_eq (js_get indexA ''unique'') (js_get indexB ''unique'') then False
         else if \<not> strict_eq (js_get indexA ''sparse'') (js_get indexB ''sparse'') then False
         else if \<not> strict_eq (js_get indexA ''expireAfterSeconds'')
                               (js_get indexB ''expireAfterSeconds'') then False
         else if truthy (js_get indexA ''key'')
                 \<and> js_includes (Object_values (js_get indexA ''key'')) (JStr ''text'')
                 \<and> JSON_stringify (js_or (js_get indexA ''weights'') empty_object)
                     \<noteq> JSON_stringify (js_or (js_get indexB ''weights'') empty_object)
              then False
         else if JSON_stringify (js_or (js_get indexA ''partialFilterExpression'') empty_object)
                 \<noteq> JSON_stringify (js_or (js_get indexB ''partialFilterExpression'') empty_object)
              then False
         else True)"

section \<open>The reconciliation planner\<close>

text \<open>
  The loop of \<^verbatim>\<open>compareIndexes\<close> over the source collections. The two
  inventories are what \<^verbatim>\<open>getIndexes\<close> returns for a collection of the source
  and of the target database; \<^verbatim>\<open>missingIndexes\<close> is the object the loop assigns
  into, keyed by collection name, and \<^verbatim>\<open>totalMissingIndexes\<close> the counter it
  keeps. The lines the loop logs have no part in what it computes and are left out.
\<close>

record plan_entry =
  collectionMissing :: bool
  indexes :: "descriptor list"

type_synonym plan = "string \<rightharpoonup> plan_entry"

text \<open>\<^verbatim>\<open>index.name !== '_id_'\<close>\<close>

definition not_id_index :: "descriptor \<Rightarrow> bool" where
  "not_id_index index \<longleftrightarrow> \<not> strict_eq (js_get index ''name'') (JStr ''_id_'')"

text \<open>
  \<^verbatim>\<open>missingIndexes[collectionName] = entry\<close> on the plain object
  \<^verbatim>\<open>missingIndexes\<close>. The plan is the own properties of that object, what
  \<^verbatim>\<open>Object.entries\<close> lists. The assignment makes or replaces an own property
  for every name but \<^verbatim>\<open>__proto__\<close>: that name reaches the setter that
  \<^verbatim>\<open>Object.prototype\<close> has for it, which takes the entry as the new prototype
  of the object and adds no property.
\<close>

definition assign_entry :: "plan \<Rightarrow> string \<Rightarrow> plan_entry \<Rightarrow> plan" where
  "assign_entry missingIndexes collectionName entry =
     (if collectionName = ''__proto__'' then missingIndexes
      else missingIndexes(collectionName \<mapsto> entry))"

text \<open>The inner loop over \<^verbatim>\<open>sourceIndexes\<close>, with \<^verbatim>\<open>missing\<close> and the running count.\<close>

fun missing_loop ::
  "descriptor list \<Rightarrow> descriptor list \<Rightarrow> descriptor list \<Rightarrow> nat \<Rightarrow> descriptor list \<times> nat"
where
  "missing_loop [] targetIndexes missing totalMissingIndexes = (missing, totalMissingIndexes)"
| "missing_loop (sourceIndex # rest) targetIndexes missing totalMissingIndexes =
     (if strict_eq (js_get sourceIndex ''name'') (JStr ''_id_'')
      then missing_loop rest targetIndexes missing totalMissingIndexes
      else
        let hasEquivalent =
              list_ex (\<lambda>targetIndex. areIndexesEquivalent sourceIndex targetIndex) targetIndexes
        in if \<not> hasEquivalent
           then missing_loop rest targetIndexes (missing @ [sourceIndex]) (totalMissingIndexes + 1)
           else missing_loop rest targetIndexes missing totalMissingIndexes)"

fun compare_loop ::
  "(string \<Rightarrow> descriptor list) \<Rightarrow> string list \<Rightarrow> (string \<Rightarrow> descriptor list)
   \<Rightarrow> string list \<Rightarrow> plan \<Rightarrow> nat \<Rightarrow> plan \<times> nat"
where
  "compare_loop sourceOf targetCollections targetOf [] missingIndexes totalMissingIndexes =
     (missingIndexes, totalMissingIndexes)"
| "compare_loop sourceOf targetCollections targetOf (collectionName # rest) missingIndexes totalMissingIndexes =
     (let sourceIndexes = sourceOf collectionName
      in if collectionName \<notin> set targetCollections
         then compare_loop sourceOf targetCollections targetOf rest
                (assign_entry missingIndexes collectionName
                   \<lparr>collectionMissing = True, indexes = filter not_id_index sourceIndexes\<rparr>)
                (totalMissingIndexes + length (filter not_id_index sourceIndexes))
         else
           let targetIndexes = targetOf collectionName;
               found = missing_loop sourceIndexes targetIndexes [] totalMissingIndexes
           in if length (fst found) > 0
              then compare_loop sourceOf targetCollections targetOf rest
                     (assign_entry missingIndexes collectionName
                        \<lparr>collectionMissing = False, indexes = fst found\<rparr>)
                     (snd found)
              else compare_loop sourceOf targetCollections targetOf rest missingIndexes (snd found))"

definition compareIndexes ::
  "string list \<Rightarrow> (string \<Rightarrow> descriptor list) \<Rightarrow> string list \<Rightarrow> (string \<Rightarrow> descriptor list)
   \<Rightarrow> plan \<times> nat"
where
  "compareIndexes sourceCollections sourceOf targetCollections targetOf =
     compare_loop sourceOf targetCollections targetOf sourceCollections Map.empty 0"

text \<open>
  An inventory written out as a list of collections with their descriptors; a collection
  that is not listed has no indexes to read.
\<close>

definition inventory :: "(string \<times> descriptor list) list \<Rightarrow> string \<Rightarrow> descriptor list" where
  "inventory colls c = (case map_of colls c of None \<Rightarrow> [] | Some ds \<Rightarrow> ds)"

text \<open>
  The plan as the specification words it (section 4.4): the \<^verbatim>\<open>_id_\<close> descriptor is
  taken out of every sequence, the target's too, before anything else; then the three steps.
\<close>

definition plan_spec ::
  "string list \<Rightarrow> (string \<Rightarrow> descriptor list) \<Rightarrow> string list \<Rightarrow> (string \<Rightarrow> descriptor list) \<Rightarrow> plan"
where
  "plan_spec sourceCollections sourceOf targetCollections targetOf c =
     (if c \<notin> set sourceCollections then None
      else
        let s = filter not_id_index (sourceOf c);
            t = filter not_id_index (targetOf c)
        in if c \<notin> set targetCollections
           then Some \<lparr>collectionMissing = True, indexes = s\<rparr>
           else
             let missing = filter (\<lambda>i. \<not> list_ex (areIndexesEquivalent i) t) s
             in if missing = [] then None
                else Some \<lparr>collectionMissing = False, indexes = missing\<rparr>)"

text \<open>The same reference plan with the target sequence left as it was read.\<close>

definition plan_reference ::
  "string list \<Rightarrow> (string \<Rightarrow> descriptor list) \<Rightarrow> string list \<Rightarrow> (string \<Rightarrow> descriptor list) \<Rightarrow> plan"
where
  "plan_reference sourceCollections sourceOf targetCollections targetOf c =
     (if c \<notin> set sourceCollections then None
      else
        let s = filter not_id_index (sourceOf c);
            t = targetOf c
        in if c \<notin> set targetCollections
           then Some \<lparr>collectionMissing = True, indexes = s\<rparr>
           else
             let missing = filter (\<lambda>i. \<not> list_ex (areIndexesEquivalent i) t) s
             in if missing = [] then None
                else Some \<lparr>collectionMissing = False, indexes = missing\<rparr>)"

section \<open>The driver, the logger and the object store\<close>

text \<open>
  A thrown error: its \<^verbatim>\<open>code\<close> (a number for a server error, a string for a
  system error, absent otherwise) and its \<^verbatim>\<open>message\<close>, which every
  \<^verbatim>\<open>Error\<close> carries as a string.
\<close>

record js_error =
  code :: jsval
  message :: string

text \<open>
  The database handle, as far as these functions use it: \<^verbatim>\<open>db.collection(name)\<close>
  (which may throw on a name the driver refuses), \<^verbatim>\<open>collection.indexes()\<close>,
  \<^verbatim>\<open>collection.createIndex(keys, options)\<close>,
  \<^verbatim>\<open>db.listCollections({ name }).hasNext()\<close> and
  \<^verbatim>\<open>db.createCollection(name)\<close>. The driver only reads its arguments.
\<close>

record database =
  db_collection :: "string \<Rightarrow> js_error option"
  collection_indexes :: "string \<Rightarrow> js_error + descriptor list"
  collection_createIndex :: "string \<Rightarrow> jsval \<Rightarrow> jsobject \<Rightarrow> js_error option"
  listCollections_hasNext :: "string \<Rightarrow> js_error + bool"
  db_createCollection :: "string \<Rightarrow> js_error option"

datatype level = INFO | ERROR | SUCCESS | WARNING

datatype event =
    Retrieved_indexes nat string
  | Failed_to_get_indexes string string
  | Skipping_id_index string
  | Successfully_created_index jsval string
  | Index_already_exists jsval string
  | Failed_to_create_index jsval string string
  | No_custom_indexes_defined
  | Creating_custom_indexes nat
  | Created_collection string
  | Custom_indexes_creation_completed
  | Error_while_creating_custom_indexes string

record driver_call =
  call_collection :: string
  call_keys :: jsval
  call_options :: jsobject

text \<open>
  \<^verbatim>\<open>createIndex\<close> writes to an object (\<^verbatim>\<open>delete options.key\<close>), so
  there a descriptor is a reference into a store of objects; the store gives the list of
  properties of each object, with values as before, and \<open>next_ref\<close> is the first
  reference not yet in use. The state also keeps the lines logged, as level and event
  rather than as text, and the create-index calls that reached the driver.
\<close>

record js_state =
  heap :: "ref \<Rightarrow> jsobject"
  next_ref :: ref
  logged :: "(level \<times> event) list"
  created :: "driver_call list"

type_synonym 'a outcome = "(js_error + 'a) \<times> js_state"

definition logger :: "level \<Rightarrow> event \<Rightarrow> js_state \<Rightarrow> js_state" where
  "logger l e s = s\<lparr>logged := logged s @ [(l, e)]\<rparr>"

text \<open>\<^verbatim>\<open>{ ...obj }\<close>: a new object with the own properties of \<open>obj\<close>, in order.\<close>

definition spread_copy :: "js_state \<Rightarrow> ref \<Rightarrow> ref \<times> js_state" where
  "spread_copy s r =
     (next_ref s, s\<lparr>heap := (heap s)(next_ref s := heap s r), next_ref := Suc (next_ref s)\<rparr>)"

text \<open>\<^verbatim>\<open>delete obj.k\<close>\<close>

definition delete_property :: "js_state \<Rightarrow> ref \<Rightarrow> string \<Rightarrow> js_state" where
  "delete_property s r k = s\<lparr>heap := (heap s)(r := filter (\<lambda>p. fst p \<noteq> k) (heap s r))\<rparr>"

text \<open>\<^verbatim>\<open>try { body } catch (error) { handler }\<close>: \<open>Inl\<close> is a thrown error.\<close>

definition try_catch ::
  "(js_state \<Rightarrow> 'a outcome) \<Rightarrow> (js_error \<Rightarrow> js_state \<Rightarrow> 'a outcome) \<Rightarrow> js_state \<Rightarrow> 'a outcome"
where
  "try_catch body handler s =
     (case body s of (Inl error, s') \<Rightarrow> handler error s' | (Inr v, s') \<Rightarrow> (Inr v, s'))"

text \<open>\<^verbatim>\<open>String.prototype.includes\<close>\<close>

fun includes_str :: "string \<Rightarrow> string \<Rightarrow> bool" where
  "includes_str [] sub = (sub = [])"
| "includes_str (c # cs) sub = (take (length sub) (c # cs) = sub \<or> includes_str cs sub)"

section \<open>The inventory reader\<close>

definition getIndexes :: "database \<Rightarrow> string \<Rightarrow> js_state \<Rightarrow> descriptor list outcome" where
  "getIndexes db collectionName =
     try_catch
       (\<lambda>s. case db_collection db collectionName of
               Some error \<Rightarrow> (Inl error, s)
             | None \<Rightarrow>
                 (case collection_indexes db collectionName of
                    Inl error \<Rightarrow> (Inl error, s)
                  | Inr listed \<Rightarrow>
                      (Inr listed,
                       logger INFO (Retrieved_indexes (length listed) collectionName) s)))
       (\<lambda>error s.
          (Inr [], logger ERROR (Failed_to_get_indexes collectionName (message error)) s))"

section \<open>The index applier\<close>

text \<open>
  \<^verbatim>\<open>name || JSON.stringify(keys)\<close>, the way a log line names the index.
\<close>

definition index_label :: "jsval \<Rightarrow> jsval \<Rightarrow> jsval" where
  "index_label name keys =
     js_or name (case JSON_stringify keys of None \<Rightarrow> JUndefined | Some text \<Rightarrow> JStr text)"

text \<open>
  What \<^verbatim>\<open>createIndex\<close> is handed as \<open>indexSpec\<close>: an object of the
  store, or \<^verbatim>\<open>undefined\<close> or \<^verbatim>\<open>null\<close>.
  \<^verbatim>\<open>createCustomIndexes\<close> passes the \<^verbatim>\<open>index\<close> property of a
  configuration entry, which is \<^verbatim>\<open>undefined\<close> for an entry without one.
  Reading a property of \<^verbatim>\<open>undefined\<close> or \<^verbatim>\<open>null\<close> throws a
  \<^verbatim>\<open>TypeError\<close>, which has no \<^verbatim>\<open>code\<close>.
\<close>

datatype argument = Undefined | Null | Object ref

definition TypeError :: "string \<Rightarrow> string \<Rightarrow> js_error" where
  "TypeError base property =
     \<lparr>code = JUndefined,
      message = ''Cannot read properties of '' @ base @ '' (reading '' @ [CHR 0x27] @ property
                @ [CHR 0x27] @ '')''\<rparr>"

text \<open>
  \<^verbatim>\<open>createIndex\<close>: its \<^verbatim>\<open>try\<close> block, its \<^verbatim>\<open>catch\<close>
  block, and the two together. The first read of \<open>indexSpec\<close> in the
  \<^verbatim>\<open>try\<close> block is \<^verbatim>\<open>indexSpec.name\<close>; each branch of the
  \<^verbatim>\<open>catch\<close> block reads \<^verbatim>\<open>indexSpec.name\<close> again, to build its
  log line, before it calls the logger.
\<close>

definition createIndex_try :: "database \<Rightarrow> string \<Rightarrow> argument \<Rightarrow> js_state \<Rightarrow> unit outcome" where
  "createIndex_try db collectionName indexSpec s =
     (case db_collection db collectionName of
        Some error \<Rightarrow> (Inl error, s)
      | None \<Rightarrow>
          (case indexSpec of
             Undefined \<Rightarrow> (Inl (TypeError ''undefined'' ''name''), s)
           | Null \<Rightarrow> (Inl (TypeError ''null'' ''name''), s)
           | Object r \<Rightarrow>
               if strict_eq (js_get (heap s r) ''name'') (JStr ''_id_'')
               then (Inr (), logger INFO (Skipping_id_index collectionName) s)
               else
                 let keys = js_get (heap s r) ''key'';
                     copied = spread_copy s r;
                     options = fst copied;
                     s1 = delete_property (snd copied) options ''key'';
                     s2 = delete_property s1 options ''v'';
                     s3 = delete_property s2 options ''ns'';
                     s4 = s3\<lparr>created := created s3 @
                              [\<lparr>call_collection = collectionName, call_keys = keys,
                                call_options = heap s3 options\<rparr>]\<rparr>
                 in case collection_createIndex db collectionName keys (heap s3 options) of
                      Some error \<Rightarrow> (Inl error, s4)
                    | None \<Rightarrow>
                        (Inr (),
                         logger SUCCESS
                           (Successfully_created_index
                              (index_label (js_get (heap s4 r) ''name'') keys) collectionName)
                           s4)))"

definition createIndex_catch :: "string \<Rightarrow> argument \<Rightarrow> js_error \<Rightarrow> js_state \<Rightarrow> unit outcome" where
  "createIndex_catch collectionName indexSpec error s =
     (if strict_eq (code error) (JNum 85) \<or> includes_str (message error) ''already exists''
      then (case indexSpec of
              Undefined \<Rightarrow> (Inl (TypeError ''undefined'' ''name''), s)
            | Null \<Rightarrow> (Inl (TypeError ''null'' ''name''), s)
            | Object r \<Rightarrow>
                (Inr (),
                 logger WARNING
                   (Index_already_exists
                      (index_label (js_get (heap s r) ''name'') (js_get (heap s r) ''key''))
                      collectionName) s))
      else (case indexSpec of
              Undefined \<Rightarrow> (Inl (TypeError ''undefined'' ''name''), s)
            | Null \<Rightarrow> (Inl (TypeError ''null'' ''name''), s)
            | Object r \<Rightarrow>
                (Inr (),
                 logger ERROR
                   (Failed_to_create_index
                      (index_label (js_get (heap s r) ''name'') (js_get (heap s r) ''key''))
                      collectionName (message error)) s)))"

definition createIndex :: "database \<Rightarrow> string \<Rightarrow> argument \<Rightarrow> js_state \<Rightarrow> unit outcome" where
  "createIndex db collectionName indexSpec =
     try_catch (createIndex_try db collectionName indexSpec)
               (createIndex_catch collectionName indexSpec)"

text \<open>
  \<^verbatim>\<open>createCustomIndexes\<close>, with \<^verbatim>\<open>config.customIndexes\<close> as
  the list of its entries, each the pair of its \<^verbatim>\<open>collectionName\<close> and its
  \<^verbatim>\<open>index\<close>. First the body of the \<^verbatim>\<open>for\<close> loop: an error thrown
  in it ends the loop.
\<close>

fun customIndexes_loop ::
  "database \<Rightarrow> (string \<times> argument) list \<Rightarrow> js_state \<Rightarrow> unit outcome"
where
  "customIndexes_loop targetDb [] s = (Inr (), s)"
| "customIndexes_loop targetDb (customIndex # rest) s =
     (case listCollections_hasNext targetDb (fst customIndex) of
        Inl error \<Rightarrow> (Inl error, s)
      | Inr found \<Rightarrow>
          (case (if \<not> found
                 then (case db_createCollection targetDb (fst customIndex) of
                         Some error \<Rightarrow> (Inl error, s)
                       | None \<Rightarrow> (Inr (), logger INFO (Created_collection (fst customIndex)) s))
                 else (Inr (), s)) of
             (Inl error, s1) \<Rightarrow> (Inl error, s1)
           | (Inr u, s1) \<Rightarrow>
               (case createIndex targetDb (fst customIndex) (snd customIndex) s1 of
                  (Inl error, s2) \<Rightarrow> (Inl error, s2)
                | (Inr u', s2) \<Rightarrow> customIndexes_loop targetDb rest s2)))"

definition createCustomIndexes ::
  "database \<Rightarrow> (string \<times> argument) list \<Rightarrow> js_state \<Rightarrow> unit outcome"
where
  "createCustomIndexes targetDb customIndexes =
     try_catch
       (\<lambda>s. if length customIndexes = 0
            then (Inr (), logger INFO No_custom_indexes_defined s)
            else (case customIndexes_loop targetDb customIndexes
                         (logger INFO (Creating_custom_indexes (length customIndexes)) s) of
                    (Inl error, s') \<Rightarrow> (Inl error, s')
                  | (Inr u, s') \<Rightarrow>
                      (Inr (), logger SUCCESS Custom_indexes_creation_completed s')))
       (\<lambda>error s.
          (Inr (), logger ERROR (Error_while_creating_custom_indexes (message error)) s))"

section \<open>The JSON form of a value\<close>

text \<open>
  The vocabulary of the proofs about \<^verbatim>\<open>JSON.stringify\<close>. Digits, the number a
  digit string denotes, and the characters that may follow a serialised value.
\<close>

definition is_digit :: "char \<Rightarrow> bool" where
  "is_digit c \<longleftrightarrow> 48 \<le> (of_char c :: nat) \<and> (of_char c :: nat) \<le> 57"

definition read_nat :: "string \<Rightarrow> nat" where
  "read_nat s = foldl (\<lambda>a c. 10 * a + (of_char c - 48)) 0 s"

definition nondigit_start :: "string \<Rightarrow> bool" where
  "nondigit_start r \<longleftrightarrow> (case r of [] \<Rightarrow> True | c # _ \<Rightarrow> \<not> is_digit c)"

definition stop :: "string \<Rightarrow> bool" where
  "stop r \<longleftrightarrow> r = [] \<or> hd r = CHR '','' \<or> hd r = CHR '']'' \<or> hd r = CHR ''}''"

text \<open>
  What \<^verbatim>\<open>JSON.stringify\<close> keeps of a value: no references, no
  \<^verbatim>\<open>undefined\<close> (dropped from objects, \<^verbatim>\<open>null\<close> in arrays), the
  properties in their order. \<open>to_json\<close> computes that form and \<open>render\<close> writes
  it out.
\<close>

datatype json =
    JsonNull
  | JsonBool bool
  | JsonNum int
  | JsonStr string
  | JsonArr "json list"
  | JsonObj "(string \<times> json) list"

fun to_json :: "jsval \<Rightarrow> json option"
  and to_json_elems :: "jsval list \<Rightarrow> json list"
  and to_json_props :: "(string \<times> jsval) list \<Rightarrow> (string \<times> json) list"
where
  "to_json JUndefined = None"
| "to_json JNull = Some JsonNull"
| "to_json (JBool b) = Some (JsonBool b)"
| "to_json (JNum n) = Some (JsonNum n)"
| "to_json JNaN = Some JsonNull"
| "to_json (JStr s) = Some (JsonStr s)"
| "to_json (JArr r xs) = Some (JsonArr (to_json_elems xs))"
| "to_json (JObj r fs) = Some (JsonObj (to_json_props fs))"
| "to_json_elems [] = []"
| "to_json_elems (x # xs) =
     (case to_json x of None \<Rightarrow> JsonNull | Some j \<Rightarrow> j) # to_json_elems xs"
| "to_json_props [] = []"
| "to_json_props (p # fs) =
     (case to_json (snd p) of
        None \<Rightarrow> to_json_props fs
      | Some j \<Rightarrow> (fst p, j) # to_json_props fs)"

fun render :: "json \<Rightarrow> string" where
  "render JsonNull = ''null''"
| "render (JsonBool b) = (if b then ''true'' else ''false'')"
| "render (JsonNum n) = show_int n"
| "render (JsonStr s) = quote_json s"
| "render (JsonArr xs) = CHR ''['' # join_comma (map render xs) @ '']''"
| "render (JsonObj ps) = CHR ''{'' # join_comma (map (\<lambda>p. quote_json (fst p) @ CHR '':'' # render (snd p)) ps) @ ''}''"

text \<open>The kind of a JSON value, and the kind its first character announces.\<close>

fun json_tag :: "json \<Rightarrow> nat" where
  "json_tag JsonNull = 0"
| "json_tag (JsonBool b) = 1"
| "json_tag (JsonNum n) = 2"
| "json_tag (JsonStr s) = 3"
| "json_tag (JsonArr xs) = 4"
| "json_tag (JsonObj ps) = 5"

definition start_tag :: "char \<Rightarrow> nat" where
  "start_tag c =
     (if c = CHR ''n'' then 0
      else if c = CHR ''t'' \<or> c = CHR ''f'' then 1
      else if c = CHR ''-'' \<or> is_digit c then 2
      else if c = dquote then 3
      else if c = CHR ''['' then 4
      else if c = CHR ''{'' then 5
      else 6)"




text \<open>
  The test \<^verbatim>\<open>indexA.key && Object.values(indexA.key).includes('text')\<close>, read
  off the JSON form of the key.
\<close>

fun json_has_text :: "json option \<Rightarrow> bool" where
  "json_has_text (Some (JsonObj ps)) = (JsonStr ''text'' \<in> snd ` set ps)"
| "json_has_text (Some (JsonArr xs)) = (JsonStr ''text'' \<in> set xs)"
| "json_has_text _ = False"


section \<open>Example data\<close>

text \<open>
  Descriptors as the driver lists them, a store that holds two of them at the references
  0 and 1, and drivers: one whose calls all succeed, one that lists given descriptors, one
  whose \<^verbatim>\<open>indexes()\<close> and \<^verbatim>\<open>createIndex()\<close> throw a given error,
  one whose \<^verbatim>\<open>db.collection()\<close> throws it. Each of them has every
  collection it is asked for.
\<close>

definition email_index :: descriptor where
  "email_index =
     [(''v'', JNum 2), (''key'', JObj 10 [(''email'', JNum 1)]), (''name'', JStr ''email_1''),
      (''ns'', JStr ''app.users''), (''unique'', JBool True)]"

definition id_index :: descriptor where
  "id_index = [(''v'', JNum 2), (''key'', JObj 11 [(''_id'', JNum 1)]), (''name'', JStr ''_id_'')]"

definition id_lookup_index :: descriptor where
  "id_lookup_index =
     [(''v'', JNum 2), (''key'', JObj 12 [(''_id'', JNum 1)]), (''name'', JStr ''id_lookup'')]"

definition two_descriptors :: js_state where
  "two_descriptors =
     \<lparr>heap = (\<lambda>r. [])(0 := email_index, 1 := id_index), next_ref = 2, logged = [], created = []\<rparr>"

definition driver_throwing :: "js_error \<Rightarrow> database" where
  "driver_throwing error =
     \<lparr>db_collection = (\<lambda>name. None),
      collection_indexes = (\<lambda>name. Inl error),
      collection_createIndex = (\<lambda>name keys options. Some error),
      listCollections_hasNext = (\<lambda>name. Inr True),
      db_createCollection = (\<lambda>name. None)\<rparr>"

definition driver_accepting :: database where
  "driver_accepting =
     \<lparr>db_collection = (\<lambda>name. None),
      collection_indexes = (\<lambda>name. Inr []),
      collection_createIndex = (\<lambda>name keys options. None),
      listCollections_hasNext = (\<lambda>name. Inr True),
      db_createCollection = (\<lambda>name. None)\<rparr>"

definition driver_refusing :: "js_error \<Rightarrow> database" where
  "driver_refusing error =
     \<lparr>db_collection = (\<lambda>name. Some error),
      collection_indexes = (\<lambda>name. Inr [id_index, email_index]),
      collection_createIndex = (\<lambda>name keys options. None),
      listCollections_hasNext = (\<lambda>name. Inr True),
      db_createCollection = (\<lambda>name. None)\<rparr>"

definition driver_listing :: "descriptor list \<Rightarrow> database" where
  "driver_listing listed =
     \<lparr>db_collection = (\<lambda>name. None),
      collection_indexes = (\<lambda>name. Inr listed),
      collection_createIndex = (\<lambda>name keys options. None),
      listCollections_hasNext = (\<lambda>name. Inr True),
      db_createCollection = (\<lambda>name. None)\<rparr>"

definition duplicate_error :: js_error where
  "duplicate_error =
     \<lparr>code = JNum 85, message = ''Index already exists with a different name: email_1''\<rparr>"

definition network_error :: js_error where
  "network_error = \<lparr>code = JStr ''ECONNRESET'', message = ''connection closed''\<rparr>"


definition name_error :: js_error where
  "name_error = \<lparr>code = JUndefined, message = ''collection names cannot be empty''\<rparr>"

section \<open>Properties of the JSON text\<close>

text \<open>
  The text of a value determines its JSON form: followed by a comma, a closing bracket or
  nothing, a serialised value can be read back in one way only. Numbers first.
\<close>

lemma show_nat_digits: "c \<in> set (show_nat n) \<Longrightarrow> is_digit c"
proof (induction n arbitrary: c rule: show_nat.induct)
  case (1 n)
  show ?case
  proof (cases "n < 10")
    case True
    with "1.prems" show ?thesis
      by (simp add: show_nat.simps[of n] is_digit_def)
  next
    case False
    with "1.prems" have "c \<in> set (show_nat (n div 10)) \<or> c = char_of (48 + n mod 10)"
      by (auto simp add: show_nat.simps[of n])
    then show ?thesis
    proof
      assume "c \<in> set (show_nat (n div 10))"
      with False "1.IH" show ?thesis by simp
    next
      assume "c = char_of (48 + n mod 10)"
      moreover have "n mod 10 < 10" by simp
      ultimately show ?thesis by (simp add: is_digit_def)
    qed
  qed
qed

lemma show_nat_nonempty: "show_nat n \<noteq> []"
  by (subst show_nat.simps) simp

lemma read_show_nat: "read_nat (show_nat n) = n"
proof (induction n rule: show_nat.induct)
  case (1 n)
  show ?case
  proof (cases "n < 10")
    case True
    then show ?thesis by (simp add: show_nat.simps[of n] read_nat_def)
  next
    case False
    with "1.IH" have "read_nat (show_nat (n div 10)) = n div 10" by simp
    moreover have "(48 + n mod 10) mod 256 = 48 + n mod 10"
      by (rule mod_less) (simp add: less_le_trans[OF mod_less_divisor])
    ultimately show ?thesis using False
      by (simp add: show_nat.simps[of n] read_nat_def)
  qed
qed

lemma takeWhile_digits:
  assumes "\<And>c. c \<in> set xs \<Longrightarrow> is_digit c" and "nondigit_start r"
  shows "takeWhile is_digit (xs @ r) = xs"
proof -
  have "takeWhile is_digit r = []"
    using assms(2) by (cases r) (simp_all add: nondigit_start_def)
  with assms(1) show ?thesis by (simp add: takeWhile_append)
qed

lemma show_nat_unique:
  assumes "show_nat a @ r = show_nat b @ r'" and "nondigit_start r" and "nondigit_start r'"
  shows "a = b \<and> r = r'"
proof -
  have "takeWhile is_digit (show_nat a @ r) = show_nat a"
    using assms(2) by (intro takeWhile_digits) (simp_all add: show_nat_digits)
  moreover have "takeWhile is_digit (show_nat b @ r') = show_nat b"
    using assms(3) by (intro takeWhile_digits) (simp_all add: show_nat_digits)
  ultimately have eq: "show_nat a = show_nat b" using assms(1) by simp
  then have "read_nat (show_nat a) = read_nat (show_nat b)" by simp
  then have "a = b" by (simp add: read_show_nat)
  with assms(1) show ?thesis by simp
qed

lemma show_nat_hd_digit: "is_digit (hd (show_nat n))"
  using show_nat_digits[of "hd (show_nat n)" n] show_nat_nonempty[of n] by simp

lemma show_int_unique:
  assumes "show_int a @ r = show_int b @ r'" and "nondigit_start r" and "nondigit_start r'"
  shows "a = b \<and> r = r'"
proof -
  have minus: "\<not> is_digit (CHR ''-'')" by (simp add: is_digit_def)
  have neg: "CHR ''-'' # xs = show_nat n @ ys \<Longrightarrow> False" for xs n ys
  proof -
    assume "CHR ''-'' # xs = show_nat n @ ys"
    then have "hd (show_nat n) = CHR ''-''"
      using show_nat_nonempty[of n] by (cases "show_nat n") auto
    with show_nat_hd_digit[of n] minus show False by simp
  qed
  show ?thesis
  proof (cases "a < 0")
    case a: True
    show ?thesis
    proof (cases "b < 0")
      case True
      with a assms(1) have "show_nat (nat (- a)) @ r = show_nat (nat (- b)) @ r'"
        by (simp add: show_int_def)
      from show_nat_unique[OF this assms(2,3)] a True show ?thesis by auto
    next
      case False
      with a assms(1) neg show ?thesis by (auto simp: show_int_def)
    qed
  next
    case a: False
    show ?thesis
    proof (cases "b < 0")
      case True
      with a assms(1) neg[of _ "nat a"] show ?thesis by (auto simp: show_int_def dest: sym)
    next
      case False
      with a assms(1) have "show_nat (nat a) @ r = show_nat (nat b) @ r'"
        by (simp add: show_int_def)
      from show_nat_unique[OF this assms(2,3)] a False show ?thesis by auto
    qed
  qed
qed

text \<open>Strings: the escapes form a prefix code, and no escape starts with the closing quote.\<close>

lemma hex_digit_inj:
  assumes "a < 16" and "b < 16" and "hex_digit a = hex_digit b"
  shows "a = b"
proof -
  have code: "(of_char (hex_digit n) :: nat) = (if n < 10 then 48 + n else 87 + n)"
    if "n < 16" for n
    using that by (simp add: hex_digit_def)
  have "(of_char (hex_digit a) :: nat) = of_char (hex_digit b)"
    using assms(3) by simp
  then have "(if a < 10 then 48 + a else 87 + a) = (if b < 10 then 48 + b else 87 + b)"
    by (simp only: code[OF assms(1)] code[OF assms(2)])
  with assms(1,2) show ?thesis
    by (simp split: if_splits)
qed

lemma escape_char_cases:
  "(escape_char c = [c] \<and> c \<noteq> dquote \<and> c \<noteq> backslash \<and> 32 \<le> (of_char c :: nat))
   \<or> (\<exists>e rest. escape_char c = backslash # e # rest)"
  by (auto simp: escape_char_def)

lemma escape_char_unique:
  assumes "escape_char c @ X = escape_char d @ Y"
  shows "c = d \<and> X = Y"
proof -
  have u: "c = d" if "(of_char c :: nat) < 32" "(of_char d :: nat) < 32"
    "hex_digit (of_char c div 16) = hex_digit (of_char d div 16)"
    "hex_digit (of_char c mod 16) = hex_digit (of_char d mod 16)" for c d
  proof -
    have "(of_char c :: nat) div 16 = of_char d div 16"
      using that by (intro hex_digit_inj) auto
    moreover have "(of_char c :: nat) mod 16 = of_char d mod 16"
      using that by (intro hex_digit_inj) auto
    ultimately have "(of_char c :: nat) = of_char d"
      by (metis div_mult_mod_eq)
    then show ?thesis by simp
  qed
  from assms show ?thesis
    by (auto simp: escape_char_def dquote_def backslash_def split: if_splits intro: u)
qed

lemma escape_char_start: "escape_char c \<noteq> [] \<and> hd (escape_char c) \<noteq> dquote"
  using escape_char_cases[of c] by (auto simp: dquote_def backslash_def)

lemma escaped_body_unique:
  "concat (map escape_char s) @ dquote # r = concat (map escape_char t) @ dquote # r'
   \<Longrightarrow> s = t \<and> r = r'"
proof (induction s arbitrary: t)
  case Nil
  show ?case
  proof (cases t)
    case Nil
    with Nil.prems show ?thesis by simp
  next
    case (Cons d ds)
    with Nil.prems have "hd (escape_char d) = dquote"
      using escape_char_start[of d] by (cases "escape_char d") auto
    with escape_char_start[of d] show ?thesis by simp
  qed
next
  case (Cons c cs)
  show ?case
  proof (cases t)
    case Nil
    with Cons.prems have "hd (escape_char c) = dquote"
      using escape_char_start[of c] by (cases "escape_char c") auto
    with escape_char_start[of c] show ?thesis by simp
  next
    case (Cons d ds)
    with Cons.prems have
      "escape_char c @ (concat (map escape_char cs) @ dquote # r)
       = escape_char d @ (concat (map escape_char ds) @ dquote # r')"
      by simp
    from escape_char_unique[OF this] Cons.IH[of ds] Cons show ?thesis by simp
  qed
qed

lemma quote_json_unique:
  "quote_json s @ r = quote_json t @ r' \<Longrightarrow> s = t \<and> r = r'"
  using escaped_body_unique[of s r t r'] by (simp add: quote_json_def)

text \<open>Comma-separated items up to the closing bracket.\<close>

lemma stop_nondigit: "stop r \<Longrightarrow> nondigit_start r"
  by (cases r) (auto simp: stop_def nondigit_start_def is_digit_def)

lemma join_comma_Cons: "join_comma (x # xs) = x @ concat (map (\<lambda>y. CHR '','' # y) xs)"
  by (induction xs arbitrary: x) auto

lemma stop_tail: "c = CHR '']'' \<or> c = CHR ''}'' \<Longrightarrow>
  stop (concat (map (\<lambda>x. CHR '','' # f x) xs) @ c # r)"
  by (cases xs) (auto simp: stop_def)

lemma tail_unique:
  assumes item: "\<And>x y R R'. x \<in> set xs \<Longrightarrow> f x @ R = f y @ R' \<Longrightarrow> stop R \<Longrightarrow> stop R'
                   \<Longrightarrow> x = y \<and> R = R'"
    and close: "c = CHR '']'' \<or> c = CHR ''}''"
    and eq: "concat (map (\<lambda>x. CHR '','' # f x) xs) @ c # r
             = concat (map (\<lambda>x. CHR '','' # f x) ys) @ c # r'"
  shows "xs = ys \<and> r = r'"
  using item eq
proof (induction xs arbitrary: ys)
  case Nil
  with close show ?case by (cases ys) auto
next
  case (Cons x xs)
  show ?case
  proof (cases ys)
    case Nil
    with Cons.prems(2) close show ?thesis by auto
  next
    case ys: (Cons y ys')
    let ?R = "concat (map (\<lambda>x. CHR '','' # f x) xs) @ c # r"
    let ?R' = "concat (map (\<lambda>x. CHR '','' # f x) ys') @ c # r'"
    from Cons.prems(2) ys have "f x @ ?R = f y @ ?R'" by simp
    from Cons.prems(1)[OF _ this stop_tail[OF close] stop_tail[OF close]]
    have xy: "x = y" and R: "?R = ?R'" by simp_all
    have "xs = ys' \<and> r = r'"
      by (rule Cons.IH[OF _ R]) (rule Cons.prems(1), simp_all)
    with xy ys show ?thesis by simp
  qed
qed

lemma join_unique:
  assumes item: "\<And>x y R R'. x \<in> set xs \<Longrightarrow> f x @ R = f y @ R' \<Longrightarrow> stop R \<Longrightarrow> stop R'
                   \<Longrightarrow> x = y \<and> R = R'"
    and start: "\<And>x. f x \<noteq> [] \<and> hd (f x) \<noteq> CHR '']'' \<and> hd (f x) \<noteq> CHR ''}''"
    and close: "c = CHR '']'' \<or> c = CHR ''}''"
    and eq: "join_comma (map f xs) @ c # r = join_comma (map f ys) @ c # r'"
  shows "xs = ys \<and> r = r'"
proof -
  have clash: "c # u = f y @ w \<Longrightarrow> False" for u y w
    using start[of y] close by (cases "f y") auto
  show ?thesis
  proof (cases xs)
    case Nil
    show ?thesis
    proof (cases ys)
      case Nil
      with \<open>xs = []\<close> eq show ?thesis by simp
    next
      case (Cons y ys')
      with \<open>xs = []\<close> eq clash[of r y] show ?thesis
        by (simp add: join_comma_Cons del: join_comma.simps(2,3))
    qed
  next
    case xs: (Cons x xs')
    show ?thesis
    proof (cases ys)
      case Nil
      with xs eq clash[of r' x] show ?thesis
        by (simp add: join_comma_Cons del: join_comma.simps(2,3)) (metis)
    next
      case ys: (Cons y ys')
      let ?R = "concat (map (\<lambda>x. CHR '','' # f x) xs') @ c # r"
      let ?R' = "concat (map (\<lambda>x. CHR '','' # f x) ys') @ c # r'"
      from eq xs ys have "f x @ ?R = f y @ ?R'"
        by (simp add: join_comma_Cons del: join_comma.simps(2,3)) (simp add: comp_def)
      from item[OF _ this stop_tail[OF close] stop_tail[OF close]] xs
      have xy: "x = y" and R: "?R = ?R'" by simp_all
      have "xs' = ys' \<and> r = r'"
        by (rule tail_unique[OF _ close R]) (rule item, simp_all add: xs)
      with xy xs ys show ?thesis by simp
    qed
  qed
qed

text \<open>Values: the first character tells the kind, and the rest follows by induction.\<close>

lemma stringify_render:
  "JSON_stringify v = map_option render (to_json v)"
  "stringify_elems xs = map render (to_json_elems xs)"
  "stringify_props fs = map (\<lambda>p. quote_json (fst p) @ CHR '':'' # render (snd p)) (to_json_props fs)"
  by (induction v and xs and fs rule: JSON_stringify_stringify_elems_stringify_props.induct)
     (auto split: option.splits)

lemma start_tag_digit: "is_digit c \<Longrightarrow> start_tag c = 2"
  by (auto simp: start_tag_def is_digit_def)

lemma show_int_start: "show_int n \<noteq> [] \<and> start_tag (hd (show_int n)) = 2"
proof (cases "n < 0")
  case True
  then show ?thesis by (simp add: show_int_def start_tag_def)
next
  case False
  then show ?thesis
    using show_nat_nonempty[of "nat n"] show_nat_hd_digit[of "nat n"]
    by (simp add: show_int_def start_tag_digit)
qed

lemma render_start: "render j \<noteq> [] \<and> start_tag (hd (render j)) = json_tag j"
  by (cases j) (simp_all add: show_int_start, simp_all add: quote_json_def start_tag_def dquote_def is_digit_def)

lemma render_not_close:
  "render j \<noteq> [] \<and> hd (render j) \<noteq> CHR '']'' \<and> hd (render j) \<noteq> CHR ''}''"
  using render_start[of j] by (cases j) (auto simp: start_tag_def is_digit_def dquote_def)

lemma same_tag:
  assumes "render a @ r = render b @ r'"
  shows "json_tag a = json_tag b"
proof -
  have "hd (render a) = hd (render b)"
    using assms render_start[of a] render_start[of b]
    by (metis hd_append2)
  with render_start[of a] render_start[of b] show ?thesis by metis
qed

lemma render_unique:
  "render a @ r = render b @ r' \<Longrightarrow> stop r \<Longrightarrow> stop r' \<Longrightarrow> a = b \<and> r = r'"
proof (induction a arbitrary: b r r')
  case JsonNull
  from same_tag[OF JsonNull.prems(1)] JsonNull.prems(1) show ?case by (cases b) simp_all
next
  case (JsonBool x)
  from same_tag[OF JsonBool.prems(1)] JsonBool.prems(1) show ?case
    by (cases b) (auto split: if_splits)
next
  case (JsonNum n)
  from same_tag[OF JsonNum.prems(1)] obtain m where b: "b = JsonNum m" by (cases b) simp_all
  with JsonNum.prems show ?case
    using show_int_unique[of n r m r'] by (simp add: stop_nondigit)
next
  case (JsonStr s)
  from same_tag[OF JsonStr.prems(1)] obtain t where b: "b = JsonStr t" by (cases b) simp_all
  with JsonStr.prems(1) show ?case
    using quote_json_unique[of s r t r'] by simp
next
  case (JsonArr xs)
  from same_tag[OF JsonArr.prems(1)] obtain ys where b: "b = JsonArr ys" by (cases b) simp_all
  with JsonArr.prems(1)
  have eq: "join_comma (map render xs) @ CHR '']'' # r = join_comma (map render ys) @ CHR '']'' # r'"
    by simp
  have "xs = ys \<and> r = r'"
  proof (rule join_unique[OF _ _ _ eq])
    show "render x \<noteq> [] \<and> hd (render x) \<noteq> CHR '']'' \<and> hd (render x) \<noteq> CHR ''}''" for x
      by (rule render_not_close)
    show "CHR '']'' = CHR '']'' \<or> CHR '']'' = CHR ''}''" by simp
    show "x = y \<and> R = R'"
      if "x \<in> set xs" "render x @ R = render y @ R'" "stop R" "stop R'" for x y R R'
      using JsonArr.IH[OF that] .
  qed
  with b show ?case by simp
next
  case (JsonObj ps)
  from same_tag[OF JsonObj.prems(1)] obtain qs where b: "b = JsonObj qs" by (cases b) simp_all
  let ?f = "\<lambda>p. quote_json (fst p) @ CHR '':'' # render (snd p)"
  from b JsonObj.prems(1)
  have eq: "join_comma (map ?f ps) @ CHR ''}'' # r = join_comma (map ?f qs) @ CHR ''}'' # r'"
    by simp
  have "ps = qs \<and> r = r'"
  proof (rule join_unique[OF _ _ _ eq])
    show "?f x \<noteq> [] \<and> hd (?f x) \<noteq> CHR '']'' \<and> hd (?f x) \<noteq> CHR ''}''" for x
      by (simp add: quote_json_def dquote_def)
    show "CHR ''}'' = CHR '']'' \<or> CHR ''}'' = CHR ''}''" by simp
    show "p = q \<and> R = R'"
      if "p \<in> set ps" "?f p @ R = ?f q @ R'" "stop R" "stop R'" for p q R R'
    proof -
      from that(2) have "quote_json (fst p) @ (CHR '':'' # render (snd p) @ R)
                         = quote_json (fst q) @ (CHR '':'' # render (snd q) @ R')"
        by simp
      from quote_json_unique[OF this]
      have k: "fst p = fst q" and v: "render (snd p) @ R = render (snd q) @ R'" by simp_all
      have "snd p \<in> Basic_BNFs.snds p" by (cases p) simp
      from JsonObj.IH[OF that(1) this v that(3,4)] k show ?thesis
        by (simp add: prod_eq_iff)
    qed
  qed
  with b show ?case by simp
qed

lemma render_inj: "render a = render b \<Longrightarrow> a = b"
  using render_unique[of a "[]" b "[]"] by (simp add: stop_def)

lemma stringify_eq_iff: "JSON_stringify a = JSON_stringify b \<longleftrightarrow> to_json a = to_json b"
  by (cases "to_json a"; cases "to_json b") (auto simp: stringify_render(1) dest: render_inj)

section \<open>Properties of strict equality\<close>



lemma strict_eq_JStr: "strict_eq v (JStr t) \<longleftrightarrow> v = JStr t"
  by (cases v) auto

section \<open>Properties of the comparator\<close>

text \<open>
  Whether the key pattern has a text field can be read off its JSON form, so it is the
  same for two keys with the same text.
\<close>

lemma js_includes_JStr: "js_includes xs (JStr t) \<longleftrightarrow> JStr t \<in> set xs"
  by (induction xs) (auto simp: js_includes_def strict_eq_JStr)

lemma to_json_JsonStr: "to_json v = Some (JsonStr t) \<longleftrightarrow> v = JStr t"
  by (cases v) auto

lemma to_json_props_text:
  "JsonStr t \<in> snd ` set (to_json_props fs) \<longleftrightarrow> JStr t \<in> snd ` set fs"
proof (induction fs)
  case Nil
  show ?case by simp
next
  case (Cons p fs)
  show ?case
  proof (cases "to_json (snd p)")
    case None
    then have "snd p \<noteq> JStr t" by auto
    with None Cons.IH show ?thesis by simp
  next
    case (Some j)
    have "j = JsonStr t \<longleftrightarrow> snd p = JStr t"
      using Some to_json_JsonStr[of "snd p" t] by auto
    with Some Cons.IH show ?thesis by auto
  qed
qed

lemma to_json_elems_text:
  "JsonStr t \<in> set (to_json_elems xs) \<longleftrightarrow> JStr t \<in> set xs"
proof (induction xs)
  case Nil
  show ?case by simp
next
  case (Cons x xs)
  have "(case to_json x of None \<Rightarrow> JsonNull | Some j \<Rightarrow> j) = JsonStr t \<longleftrightarrow> x = JStr t"
    using to_json_JsonStr[of x t] by (cases "to_json x") auto
  with Cons.IH show ?case by auto
qed

lemma text_key_json:
  "(truthy k \<and> js_includes (Object_values k) (JStr ''text'')) = json_has_text (to_json k)"
  by (cases k) (auto simp: js_includes_JStr to_json_props_text to_json_elems_text)

lemma text_key_json_conj:
  "(truthy k \<and> js_includes (Object_values k) (JStr ''text'') \<and> P) = (json_has_text (to_json k) \<and> P)"
  using text_key_json[of k] by blast

text \<open>The comparator, check by check, on JSON forms.\<close>

lemma areIndexesEquivalent_iff:
  "areIndexesEquivalent a b \<longleftrightarrow>
     to_json (js_get a ''key'') = to_json (js_get b ''key'')
     \<and> strict_eq (js_get a ''unique'') (js_get b ''unique'')
     \<and> strict_eq (js_get a ''sparse'') (js_get b ''sparse'')
     \<and> strict_eq (js_get a ''expireAfterSeconds'') (js_get b ''expireAfterSeconds'')
     \<and> (json_has_text (to_json (js_get a ''key'')) \<longrightarrow>
          to_json (js_or (js_get a ''weights'') empty_object)
          = to_json (js_or (js_get b ''weights'') empty_object))
     \<and> to_json (js_or (js_get a ''partialFilterExpression'') empty_object)
       = to_json (js_or (js_get b ''partialFilterExpression'') empty_object)"
  unfolding areIndexesEquivalent_def Let_def text_key_json_conj stringify_eq_iff
  by auto














text \<open>
  Claim C3, as the code has it. The comparator compares \<^verbatim>\<open>unique\<close>,
  \<^verbatim>\<open>sparse\<close> and \<^verbatim>\<open>expireAfterSeconds\<close> with \<^verbatim>\<open>!==\<close> and
  gives a missing field no default. Two equivalent descriptors agree strictly on all
  three; a descriptor without \<^verbatim>\<open>expireAfterSeconds\<close> is not equivalent to one
  with \<^verbatim>\<open>expireAfterSeconds: 0\<close>; and a descriptor without \<^verbatim>\<open>unique\<close>
  is not equivalent to one with \<^verbatim>\<open>unique: false\<close> either.
\<close>

theorem scalar_options_strict:
  "(areIndexesEquivalent a b \<longrightarrow>
      strict_eq (js_get a ''unique'') (js_get b ''unique'')
      \<and> strict_eq (js_get a ''sparse'') (js_get b ''sparse'')
      \<and> strict_eq (js_get a ''expireAfterSeconds'') (js_get b ''expireAfterSeconds''))
   \<and> (js_get a ''expireAfterSeconds'' = JUndefined \<and> js_get b ''expireAfterSeconds'' = JNum 0
        \<longrightarrow> \<not> areIndexesEquivalent a b \<and> \<not> areIndexesEquivalent b a)
   \<and> (js_get a ''unique'' = JUndefined \<and> js_get b ''unique'' = JBool False
        \<longrightarrow> \<not> areIndexesEquivalent a b \<and> \<not> areIndexesEquivalent b a)"
  by (auto simp: areIndexesEquivalent_def Let_def split: if_splits)

text \<open>
  A pair with the same expiry, a pair with no expiry against expiry 0, and a pair with no
  \<^verbatim>\<open>unique\<close> against \<^verbatim>\<open>unique: false\<close>.
\<close>

theorem scalar_options_strict_witness:
  "areIndexesEquivalent
      [(''key'', JObj 1 [(''at'', JNum 1)]), (''expireAfterSeconds'', JNum 3600)]
      [(''key'', JObj 2 [(''at'', JNum 1)]), (''expireAfterSeconds'', JNum 3600)]
   \<and> strict_eq (JNum 3600) (JNum 3600)
   \<and> \<not> areIndexesEquivalent
      [(''key'', JObj 1 [(''at'', JNum 1)])]
      [(''key'', JObj 2 [(''at'', JNum 1)]), (''expireAfterSeconds'', JNum 0)]
   \<and> \<not> areIndexesEquivalent
      [(''key'', JObj 1 [(''at'', JNum 1)])]
      [(''key'', JObj 2 [(''at'', JNum 1)]), (''unique'', JBool False)]"
  using scalar_options_strict
          [of "[(''key'', JObj 1 [(''at'', JNum 1)]), (''expireAfterSeconds'', JNum 3600)]"
              "[(''key'', JObj 2 [(''at'', JNum 1)]), (''expireAfterSeconds'', JNum 3600)]"]
        scalar_options_strict
          [of "[(''key'', JObj 1 [(''at'', JNum 1)])]"
              "[(''key'', JObj 2 [(''at'', JNum 1)]), (''expireAfterSeconds'', JNum 0)]"]
        scalar_options_strict
          [of "[(''key'', JObj 1 [(''at'', JNum 1)])]"
              "[(''key'', JObj 2 [(''at'', JNum 1)]), (''unique'', JBool False)]"]
  by (simp add: areIndexesEquivalent_def js_get_def)

text \<open>
  Two descriptors of the same index, the second one saying \<^verbatim>\<open>unique: false\<close>
  where the first says nothing: the comparator tells them apart.
\<close>

theorem unique_absent_vs_false_counterexample:
  "\<not> areIndexesEquivalent
       [(''v'', JNum 2), (''key'', JObj 1 [(''email'', JNum 1)]), (''name'', JStr ''email_1'')]
       [(''v'', JNum 2), (''key'', JObj 2 [(''email'', JNum 1)]), (''name'', JStr ''email_1''),
        (''unique'', JBool False)]"
  by (simp add: areIndexesEquivalent_def js_get_def)

text \<open>
  Claim C4, as the code has it. When the key texts agree and the three scalar options are
  strictly equal, the descriptors are equivalent exactly when the weights (looked at only
  if the key of \<open>a\<close> has a text field, a missing or falsy value counting as
  \<^verbatim>\<open>{}\<close>) and the partial filter expressions (a missing or falsy value counting
  as \<^verbatim>\<open>{}\<close>) have the same JSON form: the same fields with the same values in
  the same order, whatever the references of the objects are.
\<close>

theorem nested_comparison_structural_in_order:
  assumes "JSON_stringify (js_get a ''key'') = JSON_stringify (js_get b ''key'')"
    and "strict_eq (js_get a ''unique'') (js_get b ''unique'')"
    and "strict_eq (js_get a ''sparse'') (js_get b ''sparse'')"
    and "strict_eq (js_get a ''expireAfterSeconds'') (js_get b ''expireAfterSeconds'')"
  shows "areIndexesEquivalent a b \<longleftrightarrow>
     (truthy (js_get a ''key'') \<and> js_includes (Object_values (js_get a ''key'')) (JStr ''text'')
        \<longrightarrow> to_json (js_or (js_get a ''weights'') empty_object)
            = to_json (js_or (js_get b ''weights'') empty_object))
     \<and> to_json (js_or (js_get a ''partialFilterExpression'') empty_object)
       = to_json (js_or (js_get b ''partialFilterExpression'') empty_object)"
  using assms by (simp add: areIndexesEquivalent_iff text_key_json stringify_eq_iff)

text \<open>
  Two text indexes read separately, equal field by field; and default weights against an
  explicit empty weights object.
\<close>

theorem nested_comparison_structural_in_order_witness:
  "areIndexesEquivalent
     [(''key'', JObj 1 [(''title'', JStr ''text'')]),
      (''weights'', JObj 2 [(''title'', JNum 10)]),
      (''partialFilterExpression'', JObj 3 [(''active'', JBool True), (''tags'', JArr 4 [JStr ''a''])])]
     [(''key'', JObj 5 [(''title'', JStr ''text'')]),
      (''weights'', JObj 6 [(''title'', JNum 10)]),
      (''partialFilterExpression'', JObj 7 [(''active'', JBool True), (''tags'', JArr 8 [JStr ''a''])])]
   \<and> areIndexesEquivalent
     [(''key'', JObj 1 [(''title'', JStr ''text'')])]
     [(''key'', JObj 5 [(''title'', JStr ''text'')]), (''weights'', JObj 6 [])]"
  using nested_comparison_structural_in_order
     [of "[(''key'', JObj 1 [(''title'', JStr ''text'')]),
      (''weights'', JObj 2 [(''title'', JNum 10)]),
      (''partialFilterExpression'', JObj 3 [(''active'', JBool True), (''tags'', JArr 4 [JStr ''a''])])]"
      "[(''key'', JObj 5 [(''title'', JStr ''text'')]),
      (''weights'', JObj 6 [(''title'', JNum 10)]),
      (''partialFilterExpression'', JObj 7 [(''active'', JBool True), (''tags'', JArr 8 [JStr ''a''])])]"]
    nested_comparison_structural_in_order
     [of "[(''key'', JObj 1 [(''title'', JStr ''text'')])]"
         "[(''key'', JObj 5 [(''title'', JStr ''text'')]), (''weights'', JObj 6 [])]"]
  by (simp add: js_get_def js_or_def empty_object_def js_includes_def)

text \<open>
  The same partial filter expression with its two fields listed in the other order: the
  comparator tells the descriptors apart.
\<close>

theorem nested_order_counterexample:
  "\<not> areIndexesEquivalent
       [(''key'', JObj 1 [(''email'', JNum 1)]),
        (''partialFilterExpression'', JObj 2 [(''active'', JBool True), (''age'', JNum 18)])]
       [(''key'', JObj 3 [(''email'', JNum 1)]),
        (''partialFilterExpression'', JObj 4 [(''age'', JNum 18), (''active'', JBool True)])]"
  by (simp add: areIndexesEquivalent_def js_get_def js_or_def empty_object_def quote_json_def
      escape_char_def dquote_def backslash_def)



section \<open>Properties of the planner\<close>

text \<open>The inner loop is a filter; one round of the outer loop sets or keeps one entry.\<close>

lemma missing_loop_filter:
  "missing_loop sourceIndexes targetIndexes missing n =
     (missing @ filter (\<lambda>i. not_id_index i \<and> \<not> list_ex (areIndexesEquivalent i) targetIndexes)
                  sourceIndexes,
      n + length (filter (\<lambda>i. not_id_index i \<and> \<not> list_ex (areIndexesEquivalent i) targetIndexes)
                  sourceIndexes))"
  by (induction sourceIndexes arbitrary: missing n) (simp_all add: not_id_index_def Let_def)

lemma missing_loop_reference:
  "fst (missing_loop sourceIndexes targetIndexes [] n) =
     filter (\<lambda>i. \<not> list_ex (areIndexesEquivalent i) targetIndexes)
            (filter not_id_index sourceIndexes)"
  by (simp add: missing_loop_filter)

lemma plan_reference_absent:
  "c \<notin> set targetCollections \<Longrightarrow>
   plan_reference [c] sourceOf targetCollections targetOf c =
     Some \<lparr>collectionMissing = True, indexes = filter not_id_index (sourceOf c)\<rparr>"
  by (simp add: plan_reference_def)

lemma plan_reference_present:
  "c \<in> set targetCollections \<Longrightarrow>
   plan_reference [c] sourceOf targetCollections targetOf c =
     (let missing = fst (missing_loop (sourceOf c) (targetOf c) [] n)
      in if missing = [] then None else Some \<lparr>collectionMissing = False, indexes = missing\<rparr>)"
  by (simp add: plan_reference_def missing_loop_reference Let_def)

lemma compare_loop_step:
  "\<exists>n'. compare_loop sourceOf tcs targetOf (x # cs) m n =
     compare_loop sourceOf tcs targetOf cs
       (case plan_reference [x] sourceOf tcs targetOf x of
          None \<Rightarrow> m | Some e \<Rightarrow> assign_entry m x e) n'"
proof (cases "x \<in> set tcs")
  case False
  then show ?thesis by (auto simp: plan_reference_absent Let_def)
next
  case True
  show ?thesis
  proof (cases "fst (missing_loop (sourceOf x) (targetOf x) [] n) = []")
    case True
    with \<open>x \<in> set tcs\<close> show ?thesis
      by (auto simp: plan_reference_present[of x tcs sourceOf targetOf n] Let_def)
  next
    case False
    with \<open>x \<in> set tcs\<close> show ?thesis
      by (auto simp: plan_reference_present[of x tcs sourceOf targetOf n] Let_def)
  qed
qed

lemma compare_loop_plan:
  "fst (compare_loop sourceOf tcs targetOf cs m n) c =
     (if c \<in> set cs \<and> c \<noteq> ''__proto__''
      then (case plan_reference cs sourceOf tcs targetOf c of
              None \<Rightarrow> m c | Some e \<Rightarrow> Some e)
      else m c)"
proof (induction cs arbitrary: m n)
  case Nil
  show ?case by simp
next
  case (Cons x cs)
  let ?entry = "plan_reference [x] sourceOf tcs targetOf x"
  have here: "plan_reference (x # cs) sourceOf tcs targetOf x = ?entry"
    by (simp add: plan_reference_def)
  have later: "plan_reference cs sourceOf tcs targetOf x = ?entry" if "x \<in> set cs"
    using that by (simp add: plan_reference_def)
  have other: "plan_reference (x # cs) sourceOf tcs targetOf c = plan_reference cs sourceOf tcs targetOf c"
    if "c \<noteq> x"
    using that by (simp add: plan_reference_def)
  show ?case
  proof (cases ?entry)
    case None
    with compare_loop_step[of sourceOf tcs targetOf x cs m n] obtain n' where
      step: "compare_loop sourceOf tcs targetOf (x # cs) m n = compare_loop sourceOf tcs targetOf cs m n'"
      by auto
    note IH = Cons.IH[of m n']
    show ?thesis
    proof (cases "c = x")
      case True
      from None here have "plan_reference (x # cs) sourceOf tcs targetOf x = None" by simp
      moreover from None later have "x \<in> set cs \<Longrightarrow> plan_reference cs sourceOf tcs targetOf x = None"
        by simp
      ultimately show ?thesis unfolding step True using IH[unfolded True]
        by (cases "x \<in> set cs") (simp_all del: compare_loop.simps)
    next
      case False
      with IH other[OF False] show ?thesis unfolding step
        by (simp del: compare_loop.simps)
    qed
  next
    case (Some e)
    with compare_loop_step[of sourceOf tcs targetOf x cs m n] obtain n' where
      step: "compare_loop sourceOf tcs targetOf (x # cs) m n
             = compare_loop sourceOf tcs targetOf cs (assign_entry m x e) n'"
      by auto
    note IH = Cons.IH[of "assign_entry m x e" n']
    show ?thesis
    proof (cases "c = x")
      case True
      from Some here have h: "plan_reference (x # cs) sourceOf tcs targetOf x = Some e" by simp
      from Some later have l: "x \<in> set cs \<Longrightarrow> plan_reference cs sourceOf tcs targetOf x = Some e"
        by simp
      have ae: "assign_entry m x e x = (if x = ''__proto__'' then m x else Some e)"
        by (simp add: assign_entry_def)
      show ?thesis unfolding step True using IH[unfolded True] h l ae
        by (cases "x \<in> set cs"; cases "x = ''__proto__''")
           (simp_all del: compare_loop.simps)
    next
      case False
      then have ae: "assign_entry m x e c = m c" by (simp add: assign_entry_def)
      from IH[unfolded ae] other[OF False] False show ?thesis unfolding step
        by (simp del: compare_loop.simps)
    qed
  qed
qed

lemma compareIndexes_plan_reference:
  "fst (compareIndexes cs sourceOf tcs targetOf) c =
     (if c = ''__proto__'' then None else plan_reference cs sourceOf tcs targetOf c)"
  by (cases "c \<in> set cs")
     (auto simp: compareIndexes_def compare_loop_plan plan_reference_def split: option.splits)

lemma plan_reference_no_id:
  assumes "plan_reference cs sourceOf tcs targetOf c = Some e" and "d \<in> set (indexes e)"
  shows "not_id_index d"
  using assms by (auto simp: plan_reference_def Let_def split: if_splits)

lemma plan_reference_empty_iff:
  "plan_reference cs sourceOf tcs targetOf = Map.empty \<longleftrightarrow>
     (\<forall>c \<in> set cs. c \<in> set tcs
        \<and> (\<forall>i \<in> set (sourceOf c). not_id_index i \<longrightarrow> list_ex (areIndexesEquivalent i) (targetOf c)))"
proof
  assume empty: "plan_reference cs sourceOf tcs targetOf = Map.empty"
  show "\<forall>c \<in> set cs. c \<in> set tcs
        \<and> (\<forall>i \<in> set (sourceOf c). not_id_index i \<longrightarrow> list_ex (areIndexesEquivalent i) (targetOf c))"
  proof
    fix c assume c: "c \<in> set cs"
    from empty have "plan_reference cs sourceOf tcs targetOf c = None" by simp
    with c show "c \<in> set tcs
        \<and> (\<forall>i \<in> set (sourceOf c). not_id_index i \<longrightarrow> list_ex (areIndexesEquivalent i) (targetOf c))"
      by (auto simp: plan_reference_def Let_def filter_empty_conv split: if_splits)
  qed
next
  assume sync: "\<forall>c \<in> set cs. c \<in> set tcs
        \<and> (\<forall>i \<in> set (sourceOf c). not_id_index i \<longrightarrow> list_ex (areIndexesEquivalent i) (targetOf c))"
  show "plan_reference cs sourceOf tcs targetOf = Map.empty"
  proof
    fix c
    show "plan_reference cs sourceOf tcs targetOf c = None"
      using sync by (auto simp: plan_reference_def Let_def filter_empty_conv)
  qed
qed

text \<open>
  Claim C1, as the code has it. For every collection name other than
  \<^verbatim>\<open>__proto__\<close>, the plan that \<^verbatim>\<open>compareIndexes\<close> computes is the
  reference plan in which the \<^verbatim>\<open>_id_\<close> descriptors are taken out of the source
  sequences only; the plan never has an entry for \<^verbatim>\<open>__proto__\<close>. A source
  collection that is not among the target's collection names
  gets an entry with \<^verbatim>\<open>collectionMissing: true\<close> and all its
  non-\<^verbatim>\<open>_id_\<close> source indexes. A source collection that is among them
  contributes, in source order, the non-\<^verbatim>\<open>_id_\<close> source indexes that no target
  index of the collection is equivalent to, the target's \<^verbatim>\<open>_id_\<close> index
  included in the search; with none to contribute it has no entry. So, when no source
  collection is named \<^verbatim>\<open>__proto__\<close>, the plan is empty exactly when every source
  collection is on the target with an equivalent for each of its non-\<^verbatim>\<open>_id_\<close>
  indexes.
\<close>

theorem compareIndexes_plan:
  "fst (compareIndexes sourceCollections sourceOf targetCollections targetOf) c
     = (if c = ''__proto__'' then None
        else plan_reference sourceCollections sourceOf targetCollections targetOf c)
   \<and> (''__proto__'' \<notin> set sourceCollections \<longrightarrow>
        (fst (compareIndexes sourceCollections sourceOf targetCollections targetOf) = Map.empty
         \<longleftrightarrow> (\<forall>c \<in> set sourceCollections. c \<in> set targetCollections
               \<and> (\<forall>i \<in> set (sourceOf c).
                     not_id_index i \<longrightarrow> list_ex (areIndexesEquivalent i) (targetOf c)))))"
proof (intro conjI impI)
  show "fst (compareIndexes sourceCollections sourceOf targetCollections targetOf) c
     = (if c = ''__proto__'' then None
        else plan_reference sourceCollections sourceOf targetCollections targetOf c)"
    by (rule compareIndexes_plan_reference)
next
  assume none: "''__proto__'' \<notin> set sourceCollections"
  have "fst (compareIndexes sourceCollections sourceOf targetCollections targetOf) c
        = plan_reference sourceCollections sourceOf targetCollections targetOf c" for c
    using none by (cases "c = ''__proto__''")
      (simp_all add: compareIndexes_plan_reference plan_reference_def)
  then have "fst (compareIndexes sourceCollections sourceOf targetCollections targetOf)
        = plan_reference sourceCollections sourceOf targetCollections targetOf"
    by (rule ext)
  then show "fst (compareIndexes sourceCollections sourceOf targetCollections targetOf) = Map.empty
         \<longleftrightarrow> (\<forall>c \<in> set sourceCollections. c \<in> set targetCollections
               \<and> (\<forall>i \<in> set (sourceOf c).
                     not_id_index i \<longrightarrow> list_ex (areIndexesEquivalent i) (targetOf c)))"
    by (simp only: plan_reference_empty_iff)
qed

text \<open>
  The scenario of the specification: \<^verbatim>\<open>users\<close> lacks \<^verbatim>\<open>email_1\<close>
  on the target, \<^verbatim>\<open>orders\<close> is not on the target and has only its
  \<^verbatim>\<open>_id_\<close> index. The plan has the two entries the specification expects, and
  is not empty. A source collection named \<^verbatim>\<open>__proto__\<close> that the target lacks
  gets no entry.
\<close>

theorem compareIndexes_plan_witness:
  "fst (compareIndexes [''users'', ''orders'']
         (inventory [(''users'', [id_index, email_index]), (''orders'', [id_index])])
         [''users''] (inventory [(''users'', [id_index])])) ''users''
     = Some \<lparr>collectionMissing = False, indexes = [email_index]\<rparr>
   \<and> fst (compareIndexes [''users'', ''orders'']
         (inventory [(''users'', [id_index, email_index]), (''orders'', [id_index])])
         [''users''] (inventory [(''users'', [id_index])])) ''orders''
     = Some \<lparr>collectionMissing = True, indexes = []\<rparr>
   \<and> fst (compareIndexes [''users'', ''orders'']
         (inventory [(''users'', [id_index, email_index]), (''orders'', [id_index])])
         [''users''] (inventory [(''users'', [id_index])])) \<noteq> Map.empty
   \<and> fst (compareIndexes [''__proto__''] (inventory [(''__proto__'', [id_index, email_index])])
         [] (inventory [])) ''__proto__''
     = None"
proof -
  let ?src = "inventory [(''users'', [id_index, email_index]), (''orders'', [id_index])]"
  let ?tgt = "inventory [(''users'', [id_index])]"
  have users: "plan_reference [''users'', ''orders''] ?src [''users''] ?tgt ''users''
        = Some \<lparr>collectionMissing = False, indexes = [email_index]\<rparr>"
    by (simp add: plan_reference_def inventory_def not_id_index_def js_get_def
        id_index_def email_index_def
        areIndexesEquivalent_def quote_json_def escape_char_def dquote_def backslash_def)
  have orders: "plan_reference [''users'', ''orders''] ?src [''users''] ?tgt ''orders''
        = Some \<lparr>collectionMissing = True, indexes = []\<rparr>"
    by (simp add: plan_reference_def inventory_def not_id_index_def js_get_def id_index_def)
  have names: "''__proto__'' \<notin> set [''users'', ''orders'']" by simp
  have "\<not> (\<forall>c \<in> set [''users'', ''orders'']. c \<in> set [''users'']
               \<and> (\<forall>i \<in> set (?src c).
                     not_id_index i \<longrightarrow> list_ex (areIndexesEquivalent i) (?tgt c)))"
    by simp
  with compareIndexes_plan[of "[''users'', ''orders'']" ?src "[''users'']" ?tgt "''users''"]
       compareIndexes_plan[of "[''users'', ''orders'']" ?src "[''users'']" ?tgt "''orders''"]
       compareIndexes_plan[of "[''__proto__'']"
                              "inventory [(''__proto__'', [id_index, email_index])]" "[]"
                              "inventory []" "''__proto__''"]
       users orders names
  show ?thesis by simp
qed

text \<open>
  A source index on \<^verbatim>\<open>{_id: 1}\<close> under a name of its own, and a target that
  has only \<^verbatim>\<open>_id_\<close>. The code finds the target's \<^verbatim>\<open>_id_\<close>
  equivalent to it and plans nothing for \<^verbatim>\<open>users\<close>; with
  \<^verbatim>\<open>_id_\<close> taken out of the target sequence as well, the index is missing.
\<close>

theorem target_id_index_counterexample:
  "fst (compareIndexes [''users''] (inventory [(''users'', [id_index, id_lookup_index])])
          [''users''] (inventory [(''users'', [id_index])])) ''users''
     = None
   \<and> plan_spec [''users''] (inventory [(''users'', [id_index, id_lookup_index])])
          [''users''] (inventory [(''users'', [id_index])]) ''users''
     = Some \<lparr>collectionMissing = False, indexes = [id_lookup_index]\<rparr>"
  by (simp add: compareIndexes_def plan_spec_def inventory_def not_id_index_def js_get_def
      id_index_def id_lookup_index_def
      areIndexesEquivalent_def js_or_def js_includes_def Let_def)

section \<open>Properties of the applier\<close>

text \<open>The three paths through the \<^verbatim>\<open>try\<close> block, and what the call leaves behind.\<close>

lemma js_get_strip:
  "js_get (filter (\<lambda>p. fst p \<noteq> ''key'' \<and> fst p \<noteq> ''v'' \<and> fst p \<noteq> ''ns'') obj) k =
     (if k = ''key'' \<or> k = ''v'' \<or> k = ''ns'' then JUndefined else js_get obj k)"
  by (induction obj) (auto simp: js_get_def)

lemma three_deletes:
  "filter (\<lambda>p. fst p \<noteq> ''ns'') (filter (\<lambda>p. fst p \<noteq> ''v'') (filter (\<lambda>p. fst p \<noteq> ''key'') obj))
   = filter (\<lambda>p. fst p \<noteq> ''key'' \<and> fst p \<noteq> ''v'' \<and> fst p \<noteq> ''ns'') obj"
  by (induction obj) auto

lemma createIndex_try_call:
  assumes "db_collection db c = None"
    and "\<not> strict_eq (js_get (heap s i) ''name'') (JStr ''_id_'')"
  shows "createIndex_try db c (Object i) s =
     (let opts = filter (\<lambda>p. fst p \<noteq> ''key'' \<and> fst p \<noteq> ''v'' \<and> fst p \<noteq> ''ns'') (heap s i);
          s4 = s\<lparr>heap := (heap s)(next_ref s := opts), next_ref := Suc (next_ref s),
                 created := created s @
                  [\<lparr>call_collection = c, call_keys = js_get (heap s i) ''key'',
                    call_options = opts\<rparr>]\<rparr>
      in case collection_createIndex db c (js_get (heap s i) ''key'') opts of
           Some error \<Rightarrow> (Inl error, s4)
         | None \<Rightarrow> (Inr (), logger SUCCESS
                       (Successfully_created_index
                          (index_label (js_get (heap s4 i) ''name'') (js_get (heap s i) ''key'')) c) s4))"
  using assms
  by (simp add: createIndex_try_def spread_copy_def delete_property_def Let_def three_deletes
                logger_def
           del: filter_filter split: option.splits)

lemma createIndex_try_skip:
  assumes "db_collection db c = None"
    and "strict_eq (js_get (heap s i) ''name'') (JStr ''_id_'')"
  shows "createIndex_try db c (Object i) s = (Inr (), logger INFO (Skipping_id_index c) s)"
  using assms by (simp add: createIndex_try_def)

lemma createIndex_try_refused:
  assumes "db_collection db c = Some e"
  shows "createIndex_try db c indexSpec s = (Inl e, s)"
  using assms by (simp add: createIndex_try_def)

lemma createIndex_catch_returns:
  "\<exists>l ev. createIndex_catch c (Object i) e s = (Inr (), logger l ev s)"
  by (auto simp: createIndex_catch_def)

text \<open>
  Handed an object of the store, every path of \<open>createIndex\<close> returns, logs one line,
  changes the store at most at the new reference, and calls the driver at most once.
\<close>

lemma createIndex_shape:
  "\<exists>s1 l ev.
      createIndex db c (Object i) s = (Inr (), logger l ev s1)
      \<and> logged s1 = logged s
      \<and> (\<forall>r. r \<noteq> next_ref s \<longrightarrow> heap s1 r = heap s r)
      \<and> (created s1 = created s \<or>
          (\<not> strict_eq (js_get (heap s i) ''name'') (JStr ''_id_'')
           \<and> db_collection db c = None
           \<and> created s1 = created s @
               [\<lparr>call_collection = c, call_keys = js_get (heap s i) ''key'',
                 call_options = filter (\<lambda>p. fst p \<noteq> ''key'' \<and> fst p \<noteq> ''v'' \<and> fst p \<noteq> ''ns'')
                                  (heap s i)\<rparr>]))"
proof (cases "db_collection db c")
  case (Some e)
  from createIndex_catch_returns[of c i e s] obtain l ev
    where "createIndex_catch c (Object i) e s = (Inr (), logger l ev s)" by blast
  with Some show ?thesis
    by (auto simp: createIndex_def try_catch_def createIndex_try_refused)
next
  case None
  show ?thesis
  proof (cases "strict_eq (js_get (heap s i) ''name'') (JStr ''_id_'')")
    case True
    with None show ?thesis
      by (auto simp: createIndex_def try_catch_def createIndex_try_skip)
  next
    case False
    let ?opts = "filter (\<lambda>p. fst p \<noteq> ''key'' \<and> fst p \<noteq> ''v'' \<and> fst p \<noteq> ''ns'') (heap s i)"
    let ?s4 = "s\<lparr>heap := (heap s)(next_ref s := ?opts), next_ref := Suc (next_ref s),
                 created := created s @
                  [\<lparr>call_collection = c, call_keys = js_get (heap s i) ''key'',
                    call_options = ?opts\<rparr>]\<rparr>"
    have s4: "logged ?s4 = logged s" "\<forall>r. r \<noteq> next_ref s \<longrightarrow> heap ?s4 r = heap s r"
      "created ?s4 = created s @
                  [\<lparr>call_collection = c, call_keys = js_get (heap s i) ''key'',
                    call_options = ?opts\<rparr>]"
      by simp_all
    show ?thesis
    proof (cases "collection_createIndex db c (js_get (heap s i) ''key'') ?opts")
      case ok: None
      with None False have "createIndex db c (Object i) s =
          (Inr (), logger SUCCESS (Successfully_created_index
             (index_label (js_get (heap ?s4 i) ''name'') (js_get (heap s i) ''key'')) c) ?s4)"
        by (simp add: createIndex_def try_catch_def createIndex_try_call Let_def)
      with s4 None False show ?thesis by blast
    next
      case (Some e)
      from createIndex_catch_returns[of c i e ?s4] obtain l ev
        where "createIndex_catch c (Object i) e ?s4 = (Inr (), logger l ev ?s4)" by blast
      with Some None False have "createIndex db c (Object i) s = (Inr (), logger l ev ?s4)"
        by (simp add: createIndex_def try_catch_def createIndex_try_call Let_def)
      with s4 None False show ?thesis by blast
    qed
  qed
qed

lemma createIndex_returns:
  "fst (createIndex db c (Object i) s) = Inr ()
   \<and> length (logged (snd (createIndex db c (Object i) s))) = Suc (length (logged s))"
  using createIndex_shape[of db c i s] by (auto simp: logger_def)

lemma createIndex_failed_call:
  assumes "db_collection db c = None"
    and "\<not> strict_eq (js_get (heap s i) ''name'') (JStr ''_id_'')"
    and "collection_createIndex db c (js_get (heap s i) ''key'')
           (filter (\<lambda>p. fst p \<noteq> ''key'' \<and> fst p \<noteq> ''v'' \<and> fst p \<noteq> ''ns'') (heap s i)) = Some error"
  shows "\<exists>s4. logged s4 = logged s
              \<and> createIndex db c (Object i) s = createIndex_catch c (Object i) error s4"
proof -
  let ?opts = "filter (\<lambda>p. fst p \<noteq> ''key'' \<and> fst p \<noteq> ''v'' \<and> fst p \<noteq> ''ns'') (heap s i)"
  let ?s4 = "s\<lparr>heap := (heap s)(next_ref s := ?opts), next_ref := Suc (next_ref s),
                 created := created s @
                  [\<lparr>call_collection = c, call_keys = js_get (heap s i) ''key'',
                    call_options = ?opts\<rparr>]\<rparr>"
  have "createIndex db c (Object i) s = createIndex_catch c (Object i) error ?s4"
    using assms by (simp add: createIndex_def try_catch_def createIndex_try_call Let_def)
  moreover have "logged ?s4 = logged s" by simp
  ultimately show ?thesis by blast
qed

text \<open>
  Handed an object of the store, \<^verbatim>\<open>createIndex\<close> lets no error out. When
  the driver's create call throws an error with code 85 or with a message that contains
  \<^verbatim>\<open>already exists\<close>, the call logs the already-exists warning; when it throws
  any other error, the call logs the failure with the error's message.
\<close>

lemma createIndex_object_returns:
  "fst (createIndex db c (Object i) s) = Inr ()
   \<and> (db_collection db c = None
       \<and> \<not> strict_eq (js_get (heap s i) ''name'') (JStr ''_id_'')
       \<and> collection_createIndex db c (js_get (heap s i) ''key'')
            (filter (\<lambda>p. fst p \<noteq> ''key'' \<and> fst p \<noteq> ''v'' \<and> fst p \<noteq> ''ns'') (heap s i)) = Some error
       \<and> (strict_eq (code error) (JNum 85) \<or> includes_str (message error) ''already exists'')
       \<longrightarrow> (\<exists>label. logged (snd (createIndex db c (Object i) s))
                      = logged s @ [(WARNING, Index_already_exists label c)]))
   \<and> (db_collection db c = None
       \<and> \<not> strict_eq (js_get (heap s i) ''name'') (JStr ''_id_'')
       \<and> collection_createIndex db c (js_get (heap s i) ''key'')
            (filter (\<lambda>p. fst p \<noteq> ''key'' \<and> fst p \<noteq> ''v'' \<and> fst p \<noteq> ''ns'') (heap s i)) = Some error
       \<and> \<not> (strict_eq (code error) (JNum 85) \<or> includes_str (message error) ''already exists'')
       \<longrightarrow> (\<exists>label. logged (snd (createIndex db c (Object i) s))
                      = logged s @ [(ERROR, Failed_to_create_index label c (message error))]))"
proof (intro conjI impI)
  show "fst (createIndex db c (Object i) s) = Inr ()"
    using createIndex_returns[of db c i s] by simp
next
  assume h: "db_collection db c = None
       \<and> \<not> strict_eq (js_get (heap s i) ''name'') (JStr ''_id_'')
       \<and> collection_createIndex db c (js_get (heap s i) ''key'')
            (filter (\<lambda>p. fst p \<noteq> ''key'' \<and> fst p \<noteq> ''v'' \<and> fst p \<noteq> ''ns'') (heap s i)) = Some error
       \<and> (strict_eq (code error) (JNum 85) \<or> includes_str (message error) ''already exists'')"
  then have call: "db_collection db c = None"
    "\<not> strict_eq (js_get (heap s i) ''name'') (JStr ''_id_'')"
    "collection_createIndex db c (js_get (heap s i) ''key'')
       (filter (\<lambda>p. fst p \<noteq> ''key'' \<and> fst p \<noteq> ''v'' \<and> fst p \<noteq> ''ns'') (heap s i)) = Some error"
    by simp_all
  from createIndex_failed_call[OF call] obtain s4
    where s4: "logged s4 = logged s"
      "createIndex db c (Object i) s = createIndex_catch c (Object i) error s4"
    by (elim exE conjE)
  from h have dup: "strict_eq (code error) (JNum 85) \<or> includes_str (message error) ''already exists''"
    by simp
  from s4 dup show "\<exists>label. logged (snd (createIndex db c (Object i) s))
                      = logged s @ [(WARNING, Index_already_exists label c)]"
    by (simp add: createIndex_catch_def logger_def)
next
  assume h: "db_collection db c = None
       \<and> \<not> strict_eq (js_get (heap s i) ''name'') (JStr ''_id_'')
       \<and> collection_createIndex db c (js_get (heap s i) ''key'')
            (filter (\<lambda>p. fst p \<noteq> ''key'' \<and> fst p \<noteq> ''v'' \<and> fst p \<noteq> ''ns'') (heap s i)) = Some error
       \<and> \<not> (strict_eq (code error) (JNum 85) \<or> includes_str (message error) ''already exists'')"
  then have call: "db_collection db c = None"
    "\<not> strict_eq (js_get (heap s i) ''name'') (JStr ''_id_'')"
    "collection_createIndex db c (js_get (heap s i) ''key'')
       (filter (\<lambda>p. fst p \<noteq> ''key'' \<and> fst p \<noteq> ''v'' \<and> fst p \<noteq> ''ns'') (heap s i)) = Some error"
    by simp_all
  from createIndex_failed_call[OF call] obtain s4
    where s4: "logged s4 = logged s"
      "createIndex db c (Object i) s = createIndex_catch c (Object i) error s4"
    by (elim exE conjE)
  from h have dup: "\<not> (strict_eq (code error) (JNum 85) \<or> includes_str (message error) ''already exists'')"
    by simp
  from s4 dup show "\<exists>label. logged (snd (createIndex db c (Object i) s))
                      = logged s @ [(ERROR, Failed_to_create_index label c (message error))]"
    by (simp add: createIndex_catch_def logger_def)
qed

text \<open>
  Handed \<^verbatim>\<open>undefined\<close> or \<^verbatim>\<open>null\<close>, the \<^verbatim>\<open>catch\<close>
  block throws, whatever error it caught.
\<close>

lemma createIndex_catch_throws:
  "createIndex_catch c Undefined error s = (Inl (TypeError ''undefined'' ''name''), s)"
  "createIndex_catch c Null error s = (Inl (TypeError ''null'' ''name''), s)"
  by (simp_all add: createIndex_catch_def)

text \<open>
  Claim C7, at the input where the code departs from it. Handed
  \<^verbatim>\<open>undefined\<close> or \<^verbatim>\<open>null\<close> as descriptor,
  \<^verbatim>\<open>createIndex\<close> throws a \<^verbatim>\<open>TypeError\<close>: the error leaves the
  \<^verbatim>\<open>catch\<close> block, which reads \<^verbatim>\<open>indexSpec.name\<close> for its log
  line. \<^verbatim>\<open>createCustomIndexes\<close> makes such a call for a configuration entry
  without \<^verbatim>\<open>index\<close>, and the error ends its loop: with such an entry before
  the entry for \<^verbatim>\<open>email_1\<close>, no create call reaches the driver and the run
  logs the error, while the entry for \<^verbatim>\<open>email_1\<close> alone is created.
\<close>

theorem createIndex_throws_without_descriptor:
  "createIndex db c Undefined s = (Inl (TypeError ''undefined'' ''name''), s)
   \<and> createIndex db c Null s = (Inl (TypeError ''null'' ''name''), s)
   \<and> created (snd (createCustomIndexes driver_accepting
                      [(''users'', Undefined), (''users'', Object 0)] two_descriptors)) = []
   \<and> logged (snd (createCustomIndexes driver_accepting
                     [(''users'', Undefined), (''users'', Object 0)] two_descriptors))
       = [(INFO, Creating_custom_indexes 2),
          (ERROR, Error_while_creating_custom_indexes
                    (message (TypeError ''undefined'' ''name'')))]
   \<and> created (snd (createCustomIndexes driver_accepting [(''users'', Object 0)] two_descriptors))
       = [\<lparr>call_collection = ''users'', call_keys = JObj 10 [(''email'', JNum 1)],
           call_options = [(''name'', JStr ''email_1''), (''unique'', JBool True)]\<rparr>]
   \<and> logged (snd (createCustomIndexes driver_accepting [(''users'', Object 0)] two_descriptors))
       = [(INFO, Creating_custom_indexes 1),
          (SUCCESS, Successfully_created_index (JStr ''email_1'') ''users''),
          (SUCCESS, Custom_indexes_creation_completed)]"
proof (intro conjI)
  show "createIndex db c Undefined s = (Inl (TypeError ''undefined'' ''name''), s)"
    by (cases "db_collection db c")
       (simp_all add: createIndex_def try_catch_def createIndex_try_def createIndex_catch_throws)
  show "createIndex db c Null s = (Inl (TypeError ''null'' ''name''), s)"
    by (cases "db_collection db c")
       (simp_all add: createIndex_def try_catch_def createIndex_try_def createIndex_catch_throws)
  have stopped: "createCustomIndexes driver_accepting
                   [(''users'', Undefined), (''users'', Object 0)] two_descriptors
      = (Inr (), logger ERROR (Error_while_creating_custom_indexes
                                 (message (TypeError ''undefined'' ''name'')))
                   (logger INFO (Creating_custom_indexes 2) two_descriptors))"
    by (simp add: createCustomIndexes_def try_catch_def createIndex_def createIndex_try_def
        createIndex_catch_throws driver_accepting_def numeral_2_eq_2)
  show "created (snd (createCustomIndexes driver_accepting
                      [(''users'', Undefined), (''users'', Object 0)] two_descriptors)) = []"
    unfolding stopped by (simp add: logger_def two_descriptors_def)
  show "logged (snd (createCustomIndexes driver_accepting
                     [(''users'', Undefined), (''users'', Object 0)] two_descriptors))
       = [(INFO, Creating_custom_indexes 2),
          (ERROR, Error_while_creating_custom_indexes
                    (message (TypeError ''undefined'' ''name'')))]"
    unfolding stopped by (simp add: logger_def two_descriptors_def)
  have alone: "createCustomIndexes driver_accepting [(''users'', Object 0)] two_descriptors
      = (Inr (), two_descriptors
           \<lparr>heap := (heap two_descriptors)(2 := [(''name'', JStr ''email_1''), (''unique'', JBool True)]),
            next_ref := 3,
            logged := [(INFO, Creating_custom_indexes 1),
                       (SUCCESS, Successfully_created_index (JStr ''email_1'') ''users''),
                       (SUCCESS, Custom_indexes_creation_completed)],
            created := [\<lparr>call_collection = ''users'', call_keys = JObj 10 [(''email'', JNum 1)],
                          call_options = [(''name'', JStr ''email_1''), (''unique'', JBool True)]\<rparr>]\<rparr>)"
    by (simp add: createCustomIndexes_def try_catch_def createIndex_def createIndex_try_def
        driver_accepting_def two_descriptors_def email_index_def
        spread_copy_def delete_property_def logger_def index_label_def js_get_def js_or_def
        Let_def)
  show "created (snd (createCustomIndexes driver_accepting [(''users'', Object 0)] two_descriptors))
       = [\<lparr>call_collection = ''users'', call_keys = JObj 10 [(''email'', JNum 1)],
           call_options = [(''name'', JStr ''email_1''), (''unique'', JBool True)]\<rparr>]"
    unfolding alone by simp
  show "logged (snd (createCustomIndexes driver_accepting [(''users'', Object 0)] two_descriptors))
       = [(INFO, Creating_custom_indexes 1),
          (SUCCESS, Successfully_created_index (JStr ''email_1'') ''users''),
          (SUCCESS, Custom_indexes_creation_completed)]"
    unfolding alone by simp
qed

text \<open>
  On the store of the two example descriptors: handed \<^verbatim>\<open>undefined\<close>,
  \<^verbatim>\<open>createIndex\<close> throws, logs nothing and calls no driver, on a driver that
  answers every create call with the duplicate-index error as on one that refuses the
  collection name.
\<close>

theorem createIndex_throws_without_descriptor_witness:
  "createIndex (driver_throwing duplicate_error) ''users'' Undefined two_descriptors
     = (Inl \<lparr>code = JUndefined,
              message = ''Cannot read properties of undefined (reading '' @ [CHR 0x27]
                        @ ''name'' @ [CHR 0x27] @ '')''\<rparr>,
        two_descriptors)
   \<and> fst (createIndex (driver_refusing name_error) [] Null two_descriptors)
     = Inl (TypeError ''null'' ''name'')"
  using createIndex_throws_without_descriptor
          [of "driver_throwing duplicate_error" "''users''" two_descriptors]
        createIndex_throws_without_descriptor
          [of "driver_refusing name_error" "[]" two_descriptors]
  by (simp add: TypeError_def)

text \<open>
  Claim C8. For a descriptor whose name is not \<^verbatim>\<open>_id_\<close>, on a collection the
  driver hands out, \<^verbatim>\<open>createIndex\<close> makes one create call: its key argument is
  the descriptor's \<^verbatim>\<open>key\<close>, and its options are the descriptor's properties,
  in order and unchanged, without \<^verbatim>\<open>key\<close>, \<^verbatim>\<open>v\<close> and
  \<^verbatim>\<open>ns\<close>.
\<close>

theorem options_forwarded_except_three:
  assumes "db_collection db c = None"
    and "\<not> strict_eq (js_get (heap s i) ''name'') (JStr ''_id_'')"
  shows "\<exists>call. created (snd (createIndex db c (Object i) s)) = created s @ [call]
       \<and> call_collection call = c
       \<and> call_keys call = js_get (heap s i) ''key''
       \<and> call_options call
           = filter (\<lambda>p. fst p \<noteq> ''key'' \<and> fst p \<noteq> ''v'' \<and> fst p \<noteq> ''ns'') (heap s i)
       \<and> (\<forall>k. js_get (call_options call) k
                = (if k = ''key'' \<or> k = ''v'' \<or> k = ''ns'' then JUndefined
                   else js_get (heap s i) k))"
proof -
  let ?opts = "filter (\<lambda>p. fst p \<noteq> ''key'' \<and> fst p \<noteq> ''v'' \<and> fst p \<noteq> ''ns'') (heap s i)"
  let ?call = "\<lparr>call_collection = c, call_keys = js_get (heap s i) ''key'', call_options = ?opts\<rparr>"
  have "created (snd (createIndex db c (Object i) s)) = created s @ [?call]"
  proof (cases "collection_createIndex db c (js_get (heap s i) ''key'') ?opts")
    case None
    with assms show ?thesis
      by (simp add: createIndex_def try_catch_def createIndex_try_call Let_def logger_def)
  next
    case (Some e)
    with assms show ?thesis
      by (simp add: createIndex_def try_catch_def createIndex_try_call Let_def
          createIndex_catch_def logger_def)
  qed
  moreover have "\<forall>k. js_get ?opts k
                = (if k = ''key'' \<or> k = ''v'' \<or> k = ''ns'' then JUndefined
                   else js_get (heap s i) k)"
    by (simp only: js_get_strip) simp
  ultimately show ?thesis by (intro exI[of _ ?call]) simp
qed

text \<open>The call made for \<^verbatim>\<open>email_1\<close>.\<close>

theorem options_forwarded_except_three_witness:
  "created (snd (createIndex driver_accepting ''users'' (Object 0) two_descriptors))
   = [\<lparr>call_collection = ''users'', call_keys = JObj 10 [(''email'', JNum 1)],
       call_options = [(''name'', JStr ''email_1''), (''unique'', JBool True)]\<rparr>]"
  using options_forwarded_except_three[of driver_accepting "''users''" two_descriptors 0]
  by (auto simp: driver_accepting_def two_descriptors_def email_index_def js_get_def)

text \<open>
  Claim C10. \<^verbatim>\<open>createIndex\<close> does not write to the descriptor it is given:
  the three \<^verbatim>\<open>delete\<close>s act on the copy, so every object that was in the store
  before the call has the same properties after it.
\<close>

theorem createIndex_leaves_descriptor:
  assumes "indexSpec < next_ref s"
  shows "heap (snd (createIndex db c (Object indexSpec) s)) indexSpec = heap s indexSpec
       \<and> (\<forall>r. r < next_ref s \<longrightarrow> heap (snd (createIndex db c (Object indexSpec) s)) r = heap s r)"
proof -
  from createIndex_shape[of db c indexSpec s] obtain s1 l ev where
    "createIndex db c (Object indexSpec) s = (Inr (), logger l ev s1)"
    "\<forall>r. r \<noteq> next_ref s \<longrightarrow> heap s1 r = heap s r" by blast
  then have "\<forall>r. r < next_ref s \<longrightarrow> heap (snd (createIndex db c (Object indexSpec) s)) r = heap s r"
    by (simp add: logger_def)
  with assms show ?thesis by blast
qed

text \<open>The descriptor at reference 0 after a successful and after a failed creation.\<close>

theorem createIndex_leaves_descriptor_witness:
  "heap (snd (createIndex driver_accepting ''users'' (Object 0) two_descriptors)) 0 = email_index
   \<and> heap (snd (createIndex (driver_throwing network_error) ''users'' (Object 0) two_descriptors)) 0
       = email_index"
  using createIndex_leaves_descriptor[of 0 two_descriptors driver_accepting "''users''"]
        createIndex_leaves_descriptor[of 0 two_descriptors "driver_throwing network_error" "''users''"]
  by (simp add: two_descriptors_def)

text \<open>
  Claim C6. No descriptor named \<^verbatim>\<open>_id_\<close> is in an entry of the plan, whichever
  branch made the entry, and \<^verbatim>\<open>createIndex\<close> on a descriptor named
  \<^verbatim>\<open>_id_\<close> makes no create call.
\<close>

theorem id_index_never_planned_nor_created:
  "(fst (compareIndexes sourceCollections sourceOf targetCollections targetOf) collectionName
      = Some entry
    \<longrightarrow> (\<forall>d \<in> set (indexes entry). \<not> strict_eq (js_get d ''name'') (JStr ''_id_'')))
   \<and> (strict_eq (js_get (heap s indexSpec) ''name'') (JStr ''_id_'')
      \<longrightarrow> created (snd (createIndex db c (Object indexSpec) s)) = created s)"
proof (intro conjI impI ballI)
  fix d
  assume planned:
    "fst (compareIndexes sourceCollections sourceOf targetCollections targetOf) collectionName
      = Some entry" and d: "d \<in> set (indexes entry)"
  from planned
  have "plan_reference sourceCollections sourceOf targetCollections targetOf collectionName
          = Some entry"
    by (simp add: compareIndexes_plan_reference split: if_splits)
  with d have "not_id_index d"
    using plan_reference_no_id[of sourceCollections sourceOf targetCollections targetOf collectionName entry d]
    by simp
  then show "\<not> strict_eq (js_get d ''name'') (JStr ''_id_'')" by (simp add: not_id_index_def)
next
  assume "strict_eq (js_get (heap s indexSpec) ''name'') (JStr ''_id_'')"
  with createIndex_shape[of db c indexSpec s]
  show "created (snd (createIndex db c (Object indexSpec) s)) = created s"
    by (auto simp: logger_def)
qed

text \<open>
  The plan for \<^verbatim>\<open>users\<close> lists \<^verbatim>\<open>email_1\<close> alone, and the
  applier passes over the descriptor at reference 1.
\<close>

theorem id_index_never_planned_nor_created_witness:
  "fst (compareIndexes [''users''] (inventory [(''users'', [id_index, email_index])]) [''users'']
          (inventory [(''users'', [id_index])])) ''users''
     = Some \<lparr>collectionMissing = False, indexes = [email_index]\<rparr>
   \<and> created (snd (createIndex driver_accepting ''users'' (Object 1) two_descriptors)) = []"
proof -
  have plan: "fst (compareIndexes [''users''] (inventory [(''users'', [id_index, email_index])])
          [''users''] (inventory [(''users'', [id_index])])) ''users''
     = Some \<lparr>collectionMissing = False, indexes = [email_index]\<rparr>"
    by (simp add: compareIndexes_def assign_entry_def inventory_def not_id_index_def js_get_def
        id_index_def email_index_def
        areIndexesEquivalent_def quote_json_def escape_char_def dquote_def backslash_def Let_def)
  have name: "strict_eq (js_get (heap two_descriptors 1) ''name'') (JStr ''_id_'')"
    by (simp add: two_descriptors_def id_index_def js_get_def)
  from id_index_never_planned_nor_created
         [of "[''users'']" "inventory [(''users'', [id_index, email_index])]" "[''users'']"
             "inventory [(''users'', [id_index])]" "''users''"
             "\<lparr>collectionMissing = False, indexes = [email_index]\<rparr>" two_descriptors 1
             driver_accepting "''users''"]
       plan name
  show ?thesis by (simp add: two_descriptors_def)
qed

section \<open>Properties of the inventory reader\<close>

text \<open>
  Claim C9. \<^verbatim>\<open>getIndexes\<close> never throws. When \<^verbatim>\<open>db.collection\<close>
  or \<^verbatim>\<open>collection.indexes()\<close> throws, it logs the failure with the error's
  message, through \<^verbatim>\<open>logger.error\<close>, and returns the empty list; otherwise it
  returns what the driver listed.
\<close>

theorem getIndexes_never_throws:
  "(\<exists>listed. fst (getIndexes db c s) = Inr listed)
   \<and> (db_collection db c = Some error
        \<longrightarrow> getIndexes db c s
            = (Inr [], logger ERROR (Failed_to_get_indexes c (message error)) s))
   \<and> (db_collection db c = None \<and> collection_indexes db c = Inl error
        \<longrightarrow> getIndexes db c s
            = (Inr [], logger ERROR (Failed_to_get_indexes c (message error)) s))
   \<and> (db_collection db c = None \<and> collection_indexes db c = Inr found
        \<longrightarrow> fst (getIndexes db c s) = Inr found)"
  by (auto simp: getIndexes_def try_catch_def split: option.splits sum.splits)

text \<open>
  A collection that cannot be read, a collection name that the driver refuses, and a
  collection with two indexes.
\<close>

theorem getIndexes_never_throws_witness:
  "getIndexes (driver_throwing network_error) ''users'' two_descriptors
   = (Inr [], two_descriptors\<lparr>logged := [(ERROR, Failed_to_get_indexes ''users'' ''connection closed'')]\<rparr>)
   \<and> getIndexes (driver_refusing name_error) [] two_descriptors
   = (Inr [], two_descriptors\<lparr>logged := [(ERROR, Failed_to_get_indexes []
                                                    ''collection names cannot be empty'')]\<rparr>)
   \<and> fst (getIndexes (driver_listing [id_index, email_index]) ''users'' two_descriptors)
   = Inr [id_index, email_index]"
  using getIndexes_never_throws
          [of "driver_throwing network_error" "''users''" two_descriptors network_error]
        getIndexes_never_throws
          [of "driver_refusing name_error" "[]" two_descriptors name_error]
        getIndexes_never_throws
          [of "driver_listing [id_index, email_index]" "''users''" two_descriptors _
              "[id_index, email_index]"]
  by (simp add: logger_def driver_throwing_def driver_refusing_def driver_listing_def
      network_error_def name_error_def two_descriptors_def)

end
